theory Spec2Isabelle
  imports Main "HOL-Library.List_Lexorder" "HOL-Library.Char_ord"
begin

section \<open>Values of the host language\<close>

text \<open>
  Every object of the tree carries the number \<open>_uid\<close> handed out by
  \<open>FileEntry.nextId\<close>; an object reference is modelled by that number, and the
  object heap is a total function from numbers to objects (a number that was never handed
  out holds the default object).  Exceptions are values of type \<open>error\<close>.
\<close>

type_synonym uid = nat

datatype error = TypeError | RangeError | PlainError

datatype FileType = File | Directory

text \<open>
  What a host may hand over as an item description: \<open>null\<close>/\<open>undefined\<close>, a primitive
  value without the properties read here, or an object with a \<open>type\<close> and a \<open>name\<close>
  property of any kind.  The optional metadata is not modelled.
\<close>

datatype raw_type = RawType FileType | RawTypeOther

datatype raw_name = RawString string | RawNonString

datatype raw_item = RawNullish | RawPrimitive | RawObject raw_type raw_name

subsection \<open>Typed arrays\<close>

text \<open>
  A \<open>Uint32Array\<close> is a list of naturals below \<open>2 ^ 32\<close>; a store wraps
  around (\<open>u32\<close>).  \<open>indexOf\<close>, \<open>slice\<close> and \<open>set\<close> follow the
  language standard, including negative arguments and the \<open>RangeError\<close> of \<open>set\<close> and of a
  negative length.
\<close>

definition u32 :: "nat \<Rightarrow> nat" where
  "u32 n = n mod 4294967296"

fun indexOf :: "nat list \<Rightarrow> nat \<Rightarrow> int" where
  "indexOf [] x = - 1"
| "indexOf (y # ys) x =
     (if y = x then 0 else (let r = indexOf ys x in if r = - 1 then - 1 else r + 1))"

definition slice :: "'a list \<Rightarrow> int \<Rightarrow> int \<Rightarrow> 'a list" where
  "slice xs b e =
     (let len = int (length xs);
          k = (if b < 0 then max (len + b) 0 else min b len);
          fin = (if e < 0 then max (len + e) 0 else min e len)
      in take (nat (fin - k)) (drop (nat k) xs))"

definition typed_set :: "nat list \<Rightarrow> nat list \<Rightarrow> int \<Rightarrow> error + nat list" where
  "typed_set a src off =
     (if off < 0 \<or> int (length a) < int (length src) + off then Inl RangeError
      else Inr (take (nat off) a @ src @ drop (nat off + length src) a))"

definition items_length :: "nat list option \<Rightarrow> int" where
  "items_length items = (case items of Some i \<Rightarrow> int (length i) | None \<Rightarrow> 0)"

definition spliceTypedArray ::
  "nat list \<Rightarrow> int \<Rightarrow> int \<Rightarrow> nat list option \<Rightarrow> error + nat list" where
  "spliceTypedArray arr start deleteCount items =
     (let n = (int (length arr) - deleteCount) + items_length items in
      if n < 0 then Inl RangeError
      else
        (case typed_set (replicate (nat n) 0) (slice arr 0 start) 0 of
           Inl e \<Rightarrow> Inl e
         | Inr a1 \<Rightarrow>
            (case (case items of Some i \<Rightarrow> typed_set a1 i start | None \<Rightarrow> Inr a1) of
               Inl e \<Rightarrow> Inl e
             | Inr a2 \<Rightarrow>
                 typed_set a2 (slice arr (start + deleteCount) (int (length arr)))
                   (start + items_length items))))"

section \<open>The objects of the tree\<close>

text \<open>
  One record for \<open>FileEntry\<close> and \<open>Directory\<close> objects: \<open>ftype\<close> is what the getter
  \<open>type\<close> and the tests \<open>instanceof Directory\<close> answer (the \<open>Root\<close> is a directory),
  \<open>ctor\<close> is the class that built the object, what \<open>constructor\<close> answers (a \<open>Root\<close> is
  built by \<open>Root\<close>, not by \<open>Directory\<close>).  The fields keep the source's names without
  the leading underscore.
  A \<open>null\<close> or \<open>undefined\<close> field is \<open>None\<close>.  The cached \<open>depth\<close> and
  \<open>resolvedPathCache\<close> are left out: a path is computed from the parent links when it is
  read.  A watch terminator is either the function the host's \<open>watch\<close> returned or the
  unbound method \<open>Root.terminateWatch\<close> that \<open>supervisedWatch\<close> falls back to.
  \<open>hardReloadPromise\<close> is set while a load waits for the host, and keeps the path the
  host was asked for.
\<close>

datatype terminator = HostTerminator | TerminateWatch

datatype classname = FileEntryClass | DirectoryClass | RootClass

record file_entry =
  ftype :: FileType
  ctor :: classname
  parent :: "uid option"
  fileName :: "string option"
  disposed :: bool
  children :: "uid list option"
  branchSize :: int
  flattenedBranch :: "nat list option"
  isExpanded :: bool
  watchTerminator :: "terminator option"
  hardReloadPromise :: "string option"

text \<open>The notifications of the host's watcher (paths are strings).\<close>

datatype watcher_event =
    Added string raw_item
  | Removed string
  | Changed string
  | Moved string string

datatype tree_event =
    WillChangeExpansionState uid bool
  | DidChangeExpansionState uid bool bool
  | BranchDidUpdate
  | WillDispose uid
  | DidDispose uid
  | WillChangeParent uid "uid option" uid
  | DidChangeParent uid "uid option" uid
  | DidChangePath uid
  | WillProcessWatchEvent uid watcher_event
  | DidProcessWatchEvent uid watcher_event

text \<open>
  The path utilities come from a library outside the repository; the tree reads them
  through \<open>Root.pathfx\<close>, here a record of functions.
\<close>

record pathfx =
  isRelative :: "string \<Rightarrow> bool"
  join :: "string \<Rightarrow> string \<Rightarrow> string"
  dirname :: "string \<Rightarrow> string"
  basename :: "string \<Rightarrow> string"
  splitPath :: "string \<Rightarrow> string list"
  pathDepth :: "string \<Rightarrow> int"
  normalize :: "string \<Rightarrow> string"

text \<open>
  The whole state: the object heap, the static registry \<open>idToFileEntry\<close> and counter of
  \<open>FileEntry\<close>, the fields of the one \<open>Root\<close>, the host, the execution environment
  (\<open>devChecks\<close> is the value of
  \<open>typeof process !== 'undefined' && process.env.NODE_ENV !== 'production'\<close>) and the
  notifications dispatched so far.  \<open>hostWatch\<close> tells whether the host has a \<open>watch\<close>
  function.  A watcher of \<open>fswatchers\<close> is recorded by the directory
  whose \<open>handleWatchEvent\<close> is its callback.
\<close>

record state =
  objs :: "uid \<Rightarrow> file_entry"
  idToFileEntry :: "nat \<rightharpoonup> uid"
  nextId :: nat
  rootId :: uid
  rootPath :: string
  pathfx_of :: pathfx
  getItems :: "string \<Rightarrow> raw_item list"
  hostWatch :: bool
  sortComparator :: "(file_entry \<Rightarrow> file_entry \<Rightarrow> int) option"
  devChecks :: bool
  fswatchers :: "string \<rightharpoonup> uid"
  changeEventDispatchQueue :: "string list"
  events :: "tree_event list"

definition upd :: "state \<Rightarrow> uid \<Rightarrow> (file_entry \<Rightarrow> file_entry) \<Rightarrow> state" where
  "upd s i f = s\<lparr>objs := (objs s)(i := f (objs s i))\<rparr>"

definition dispatch :: "state \<Rightarrow> tree_event \<Rightarrow> state" where
  "dispatch s e = s\<lparr>events := events s @ [e]\<rparr>"


text \<open>
  An operation either does not return (\<open>None\<close>: a walk over parent links that never
  ends), throws (\<open>Inl\<close>; the state it reached is then not observed), or returns the new
  state.
\<close>

type_synonym 'a result = "(error + 'a) option"

definition bindR :: "'a result \<Rightarrow> ('a \<Rightarrow> 'b result) \<Rightarrow> 'b result" where
  "bindR m f = Option.bind m (\<lambda>r. case r of Inl e \<Rightarrow> Some (Inl e) | Inr x \<Rightarrow> f x)"

definition liftE :: "error + 'a \<Rightarrow> 'a result" where
  "liftE r = Some r"

subsection \<open>FileEntry\<close>

definition checkRawFile :: "raw_item \<Rightarrow> error + unit" where
  "checkRawFile file =
     (case file of
        RawNullish \<Rightarrow> Inl TypeError
      | RawPrimitive \<Rightarrow> Inl TypeError
      | RawObject ty nm \<Rightarrow>
          (if ty \<noteq> RawType Directory \<and> ty \<noteq> RawType File then Inl TypeError
           else (case nm of RawNonString \<Rightarrow> Inl TypeError | RawString n \<Rightarrow> Inr ())))"

definition getFileEntryById :: "state \<Rightarrow> nat option \<Rightarrow> uid option" where
  "getFileEntryById s i = (case i of None \<Rightarrow> None | Some n \<Rightarrow> idToFileEntry s n)"

text \<open>
  The constructors: \<open>new FileEntry(root, tree, parent, fileName)\<close> and, for a directory,
  the extra fields \<open>Directory\<close>'s constructor sets.
\<close>

definition new_entry :: "state \<Rightarrow> FileType \<Rightarrow> uid option \<Rightarrow> raw_name \<Rightarrow> state \<times> uid" where
  "new_entry s ty par nm =
     (let i = nextId s;
          e = \<lparr> ftype = ty,
                ctor = (if ty = Directory then DirectoryClass else FileEntryClass),
                parent = par,
                fileName = (case par of None \<Rightarrow> None
                            | Some p \<Rightarrow> (case nm of RawString n \<Rightarrow> Some n | RawNonString \<Rightarrow> None)),
                disposed = False, children = None, branchSize = 0,
                flattenedBranch = None, isExpanded = False, watchTerminator = None,
                hardReloadPromise = None \<rparr>
      in (s\<lparr>objs := (objs s)(i := e), idToFileEntry := (idToFileEntry s)(i \<mapsto> i),
             nextId := Suc i\<rparr>, i))"

text \<open>
  The getter \<open>path\<close>: the root answers its \<open>rootPath\<close>, a detached entry throws, any
  other entry joins its parent's path and its name.  A name that is not a string is
  taken to make the path utilities throw.
\<close>

partial_function (option) path :: "state \<Rightarrow> uid \<Rightarrow> (error + string) option" where
  "path s i =
     (if i = rootId s then Some (Inr (rootPath s))
      else (case parent (objs s i) of
              None \<Rightarrow> Some (Inl PlainError)
            | Some p \<Rightarrow>
               (case fileName (objs s i) of
                  None \<Rightarrow> Some (Inl TypeError)
                | Some n \<Rightarrow>
                    (if isRelative (pathfx_of s) n
                     then Option.bind (path s p)
                            (\<lambda>r. case r of Inl e \<Rightarrow> Some (Inl e)
                                  | Inr pp \<Rightarrow> Some (Inr (join (pathfx_of s) pp n)))
                     else Some (Inr n)))))"

declare path.simps [code]

subsection \<open>Directory\<close>

definition defaultSortComparator :: "file_entry \<Rightarrow> file_entry \<Rightarrow> int" where
  "defaultSortComparator a b =
     (if ctor a = ctor b then
        (case (fileName a, fileName b) of
           (Some x, Some y) \<Rightarrow> (if x > y then 1 else if x < y then - 1 else 0)
         | _ \<Rightarrow> 0)
      else if ctor a = DirectoryClass then - 1
      else if ctor b = DirectoryClass then 1
      else 0)"

text \<open>
  \<open>Array.prototype.sort\<close> is stable; it is modelled by the insertion sort that agrees with
  it for every consistent comparator.
\<close>

fun insort_by :: "('a \<Rightarrow> 'a \<Rightarrow> int) \<Rightarrow> 'a \<Rightarrow> 'a list \<Rightarrow> 'a list" where
  "insort_by cmp x [] = [x]"
| "insort_by cmp x (y # ys) = (if cmp x y \<le> 0 then x # y # ys else y # insort_by cmp x ys)"

definition sort_by :: "('a \<Rightarrow> 'a \<Rightarrow> int) \<Rightarrow> 'a list \<Rightarrow> 'a list" where
  "sort_by cmp xs = foldr (insort_by cmp) xs []"

definition sort_children :: "state \<Rightarrow> uid list \<Rightarrow> uid list" where
  "sort_children s cs =
     sort_by (\<lambda>a b. (case sortComparator s of Some c \<Rightarrow> c | None \<Rightarrow> defaultSortComparator)
                      (objs s a) (objs s b)) cs"

definition expanded :: "state \<Rightarrow> uid \<Rightarrow> bool" where
  "expanded s i = (if i = rootId s then True else isExpanded (objs s i))"

definition setFlattenedBranch :: "state \<Rightarrow> uid \<Rightarrow> nat list option \<Rightarrow> state" where
  "setFlattenedBranch s this leaves =
     (let s1 = upd s this (\<lambda>e. e\<lparr>flattenedBranch := leaves\<rparr>)
      in if this = rootId s then dispatch s1 BranchDidUpdate else s1)"

partial_function (option) expandBranch :: "state \<Rightarrow> uid \<Rightarrow> uid \<Rightarrow> (error + state) option" where
  "expandBranch s this branch =
     (let s1 = (if this \<noteq> branch
                then upd s this (\<lambda>e. e\<lparr>branchSize := branchSize e + branchSize (objs s branch)\<rparr>)
                else s)
      in (case (if this \<noteq> branch then flattenedBranch (objs s1 this) else None) of
            Some fb \<Rightarrow>
              (let injectionStartIdx = indexOf fb branch + 1 in
               (case spliceTypedArray fb injectionStartIdx 0 (flattenedBranch (objs s1 branch)) of
                  Inl e \<Rightarrow> Some (Inl e)
                | Inr a \<Rightarrow>
                    Some (Inr (setFlattenedBranch (setFlattenedBranch s1 this (Some a)) branch None))))
          | None \<Rightarrow>
              (case parent (objs s1 this) of
                 Some p \<Rightarrow> expandBranch s1 p branch
               | None \<Rightarrow> Some (Inr s1))))"

declare expandBranch.simps [code]

partial_function (option) shrinkBranch :: "state \<Rightarrow> uid \<Rightarrow> uid \<Rightarrow> (error + state) option" where
  "shrinkBranch s this branch =
     (let s1 = (if this \<noteq> branch
                then upd s this (\<lambda>e. e\<lparr>branchSize := branchSize e - branchSize (objs s branch)\<rparr>)
                else s)
      in (case (if this \<noteq> branch then flattenedBranch (objs s1 this) else None) of
            Some fb \<Rightarrow>
              (let removalStartIdx = indexOf fb branch + 1;
                   taken = slice fb removalStartIdx (removalStartIdx + branchSize (objs s1 branch));
                   s2 = setFlattenedBranch s1 branch (Some taken)
               in (case spliceTypedArray fb removalStartIdx (int (length taken)) None of
                     Inl e \<Rightarrow> Some (Inl e)
                   | Inr a \<Rightarrow> Some (Inr (setFlattenedBranch s2 this (Some a)))))
          | None \<Rightarrow>
              (case parent (objs s1 this) of
                 Some p \<Rightarrow> shrinkBranch s1 p branch
               | None \<Rightarrow> Some (Inr s1))))"

declare shrinkBranch.simps [code]


text \<open>
  \<open>supervisedWatch\<close> of the supervisor the root builds, and a call of a stored watch
  terminator as a method of the directory \<open>this\<close>.  The host's own terminator does not
  touch the tree; the unbound \<open>terminateWatch\<close> reads \<open>this.fswatchers\<close>, a field only
  the root has.
\<close>

definition supervisedWatch :: "state \<Rightarrow> string \<Rightarrow> uid \<Rightarrow> state \<times> terminator" where
  "supervisedWatch s p callback =
     (s\<lparr>fswatchers := (fswatchers s)(normalize (pathfx_of s) p \<mapsto> callback)\<rparr>,
      if hostWatch s then HostTerminator else TerminateWatch)"

definition callTerminator :: "state \<Rightarrow> uid \<Rightarrow> terminator \<Rightarrow> string \<Rightarrow> error + state" where
  "callTerminator s this t p =
     (case t of
        HostTerminator \<Rightarrow> Inr s
      | TerminateWatch \<Rightarrow>
          (if this = rootId s
           then Inr (s\<lparr>fswatchers := (fswatchers s)(normalize (pathfx_of s) p := None)\<rparr>)
           else Inl TypeError))"

text \<open>The loop of \<open>hardReloadChildren\<close> that builds one child per raw item.\<close>

fun create_children :: "state \<Rightarrow> uid \<Rightarrow> raw_item list \<Rightarrow> error + (state \<times> uid list)" where
  "create_children s this [] = Inr (s, [])"
| "create_children s this (file # rest) =
     (case (if devChecks s then checkRawFile file else Inr ()) of
        Inl e \<Rightarrow> Inl e
      | Inr u \<Rightarrow>
         (case file of
            RawNullish \<Rightarrow> Inl TypeError
          | RawPrimitive \<Rightarrow>
              (let (s1, c) = new_entry s File (Some this) RawNonString in
               (case create_children s1 this rest of
                  Inl e \<Rightarrow> Inl e
                | Inr (s2, cs) \<Rightarrow> Inr (s2, c # cs)))
          | RawObject ty nm \<Rightarrow>
              (let (s1, c) = new_entry s (if ty = RawType Directory then Directory else File)
                               (Some this) nm in
               (case create_children s1 this rest of
                  Inl e \<Rightarrow> Inl e
                | Inr (s2, cs) \<Rightarrow> Inr (s2, c # cs)))))"

text \<open>
  \<open>hardReloadChildren\<close> suspends once, at the host's \<open>getItems\<close>.  \<open>hardReload_begin\<close>
  is the part before the suspension (a call while a load is in flight joins that load),
  \<open>hardReload_finish\<close> the part that runs when the host has answered: the host's answer
  for the path it was asked for is read there.  \<open>hardReloadChildren\<close> is the whole call
  as its caller awaits it, the host answering at once.
\<close>

definition hardReload_begin :: "state \<Rightarrow> uid \<Rightarrow> state result" where
  "hardReload_begin s this =
     (if hardReloadPromise (objs s this) \<noteq> None then Some (Inr s)
      else bindR (path s this)
             (\<lambda>p. Some (Inr (upd s this (\<lambda>e. e\<lparr>hardReloadPromise := Some p\<rparr>)))))"

definition hardReload_finish :: "state \<Rightarrow> uid \<Rightarrow> state result" where
  "hardReload_finish s this =
     (case hardReloadPromise (objs s this) of
        None \<Rightarrow> Some (Inr s)
      | Some p \<Rightarrow>
       (let rawItems = getItems s p in
        bindR (if children (objs s this) \<noteq> None then shrinkBranch s this this else Some (Inr s))
          (\<lambda>s1.
            bindR (liftE (create_children s1 this rawItems)) (\<lambda>(s2, cs).
              (let sorted = sort_children s2 cs;
                   flatTree = map u32 sorted;
                   s3 = upd s2 this (\<lambda>e. e\<lparr>children := Some sorted\<rparr>);
                   s4 = upd s3 this (\<lambda>e. e\<lparr>branchSize := int (length flatTree)\<rparr>);
                   s5 = setFlattenedBranch s4 this (Some flatTree)
               in bindR (case watchTerminator (objs s5 this) of
                           Some t \<Rightarrow> bindR (path s5 this) (\<lambda>p5. liftE (callTerminator s5 this t p5))
                         | None \<Rightarrow> Some (Inr s5))
                    (\<lambda>s6. bindR (path s6 this) (\<lambda>p6.
                       (let (s7, t) = supervisedWatch s6 p6 this in
                        Some (Inr (upd s7 this
                          (\<lambda>e. e\<lparr>watchTerminator := Some t, hardReloadPromise := None\<rparr>)))))))))))"

definition hardReloadChildren :: "state \<Rightarrow> uid \<Rightarrow> state result" where
  "hardReloadChildren s this = bindR (hardReload_begin s this) (\<lambda>s1. hardReload_finish s1 this)"

definition ensureLoaded :: "state \<Rightarrow> uid \<Rightarrow> state result" where
  "ensureLoaded s this =
     (if children (objs s this) \<noteq> None then Some (Inr s) else hardReloadChildren s this)"

text \<open>The supervisor's notifications that expansion changes.\<close>

definition isItemVisibleAtSurface :: "state \<Rightarrow> uid \<Rightarrow> error + bool" where
  "isItemVisibleAtSurface s item =
     (if item = rootId s then Inr True
      else (case flattenedBranch (objs s (rootId s)) of
              None \<Rightarrow> Inl TypeError
            | Some fb \<Rightarrow> Inr (indexOf fb item > - 1)))"

definition notifyWillChangeExpansionState :: "state \<Rightarrow> uid \<Rightarrow> bool \<Rightarrow> state" where
  "notifyWillChangeExpansionState s t nowExpanded =
     dispatch s (WillChangeExpansionState t nowExpanded)"

definition notifyDidChangeExpansionState :: "state \<Rightarrow> uid \<Rightarrow> bool \<Rightarrow> error + state" where
  "notifyDidChangeExpansionState s t nowExpanded =
     (case isItemVisibleAtSurface s t of
        Inl e \<Rightarrow> Inl e
      | Inr v \<Rightarrow> Inr (dispatch s (DidChangeExpansionState t nowExpanded v)))"

text \<open>
  \<open>Directory.setExpanded\<close> and \<open>Directory.setCollapsed\<close>.  \<open>setExpanded\<close> is an
  \<open>async\<close> method with two awaits (the load, and the parent's \<open>setExpanded\<close>).
  \<open>Directory_setExpanded\<close> is the call as a caller that awaits it sees it when nothing
  else runs while it is suspended: the load completes at once and the parent's call runs to
  its end.  The steps of a call that is not awaited, with the states in which it is
  suspended, follow \<open>Directory_setCollapsed\<close> below.
\<close>

partial_function (option) Directory_setExpanded :: "state \<Rightarrow> uid \<Rightarrow> bool \<Rightarrow> (error + state) option"
  where
  "Directory_setExpanded s this ensureVisible =
     (if isExpanded (objs s this) then Some (Inr s)
      else
        (let s1 = upd s this (\<lambda>e. e\<lparr>isExpanded := True\<rparr>) in
         Option.bind
           (if children (objs s1 this) = None then hardReloadChildren s1 this else Some (Inr s1))
           (\<lambda>r. case r of
              Inl e \<Rightarrow> Some (Inl e)
            | Inr s2 \<Rightarrow>
               (if children (objs s1 this) = None \<and> \<not> isExpanded (objs s2 this) then Some (Inr s2)
                else
                  Option.bind
                    (case parent (objs s2 this) of
                       None \<Rightarrow> Some (Inr s2)
                     | Some p \<Rightarrow>
                         (if ensureVisible \<and> p \<noteq> rootId s2
                          then Directory_setExpanded s2 p True
                          else Some (Inr s2)))
                    (\<lambda>r. case r of
                       Inl e \<Rightarrow> Some (Inl e)
                     | Inr s3 \<Rightarrow>
                        (if isExpanded (objs s3 this) then
                           Option.bind
                             (expandBranch (notifyWillChangeExpansionState s3 this True) this this)
                             (\<lambda>r. case r of
                                Inl e \<Rightarrow> Some (Inl e)
                              | Inr s4 \<Rightarrow> Some (notifyDidChangeExpansionState s4 this True))
                         else Some (Inr s3)))))))"

declare Directory_setExpanded.simps [code]

definition Directory_setCollapsed :: "state \<Rightarrow> uid \<Rightarrow> state result" where
  "Directory_setCollapsed s this =
     (if \<not> isExpanded (objs s this) then Some (Inr s)
      else
        bindR (if children (objs s this) \<noteq> None \<and> parent (objs s this) \<noteq> None
               then shrinkBranch (notifyWillChangeExpansionState s this False) this this
               else Some (Inr s))
          (\<lambda>s1. Some (notifyDidChangeExpansionState
                        (upd s1 this (\<lambda>e. e\<lparr>isExpanded := False\<rparr>)) this False)))"

text \<open>
  A call of \<open>setExpanded\<close> step by step.  Calling an \<open>async\<close> method runs it up to
  its first \<open>await\<close>; the call is then suspended, other code runs, and the call is resumed
  later.  A suspended call is the list of the places where it and the calls it waits for
  are suspended, innermost first: \<open>AwaitLoad\<close> is \<open>await this.hardReloadChildren()\<close>,
  \<open>AwaitParent\<close> is \<open>await this.parent.setExpanded(true)\<close>, which suspends the caller
  even when the parent's call has returned at once.  \<open>setExpanded_merge\<close> is the last
  statement of the method; \<open>Directory_setExpanded_call\<close> runs a call up to its first
  suspension and answers the state reached and the suspended places (none when the call
  has run to its end); \<open>Directory_setExpanded_rest\<close> is the method from its second
  \<open>if\<close> on; \<open>Directory_setExpanded_resume\<close> resumes the innermost suspended place
  (for \<open>AwaitLoad\<close>: once the load has completed); \<open>Directory_setExpanded_run\<close> resumes
  until nothing is suspended, each awaited load completing at once, and
  \<open>Directory_setExpanded_awaited\<close> is the call followed by that.
\<close>

datatype frame = AwaitLoad uid bool | AwaitParent uid

definition setExpanded_merge :: "state \<Rightarrow> uid \<Rightarrow> state result" where
  "setExpanded_merge s this =
     (if isExpanded (objs s this) then
        bindR (expandBranch (notifyWillChangeExpansionState s this True) this this)
          (\<lambda>s4. Some (notifyDidChangeExpansionState s4 this True))
      else Some (Inr s))"

partial_function (option) Directory_setExpanded_call ::
  "state \<Rightarrow> uid \<Rightarrow> bool \<Rightarrow> (error + state \<times> frame list) option" where
  "Directory_setExpanded_call s this ensureVisible =
     (if isExpanded (objs s this) then Some (Inr (s, []))
      else
        (let s1 = upd s this (\<lambda>e. e\<lparr>isExpanded := True\<rparr>) in
         if children (objs s1 this) = None then
           Option.bind (hardReload_begin s1 this)
             (\<lambda>r. case r of
                Inl e \<Rightarrow> Some (Inl e)
              | Inr s2 \<Rightarrow> Some (Inr (s2, [AwaitLoad this ensureVisible])))
         else
           (case (case parent (objs s1 this) of
                    None \<Rightarrow> None
                  | Some p \<Rightarrow> if ensureVisible \<and> p \<noteq> rootId s1 then Some p else None) of
              Some p \<Rightarrow>
                Option.bind (Directory_setExpanded_call s1 p True)
                  (\<lambda>r. case r of
                     Inl e \<Rightarrow> Some (Inl e)
                   | Inr c \<Rightarrow> Some (Inr (fst c, snd c @ [AwaitParent this])))
            | None \<Rightarrow>
                Option.bind (setExpanded_merge s1 this)
                  (\<lambda>r. case r of
                     Inl e \<Rightarrow> Some (Inl e)
                   | Inr s3 \<Rightarrow> Some (Inr (s3, []))))))"

declare Directory_setExpanded_call.simps [code]

definition Directory_setExpanded_rest :: "state \<Rightarrow> uid \<Rightarrow> bool \<Rightarrow> (state \<times> frame list) result" where
  "Directory_setExpanded_rest s this ensureVisible =
     (case (case parent (objs s this) of
              None \<Rightarrow> None
            | Some p \<Rightarrow> if ensureVisible \<and> p \<noteq> rootId s then Some p else None) of
        Some p \<Rightarrow>
          bindR (Directory_setExpanded_call s p True)
            (\<lambda>c. Some (Inr (fst c, snd c @ [AwaitParent this])))
      | None \<Rightarrow> bindR (setExpanded_merge s this) (\<lambda>s3. Some (Inr (s3, []))))"

definition Directory_setExpanded_resume :: "state \<Rightarrow> frame list \<Rightarrow> (state \<times> frame list) result" where
  "Directory_setExpanded_resume s fs =
     (case fs of
        [] \<Rightarrow> Some (Inr (s, []))
      | AwaitLoad d ev # rest \<Rightarrow>
          (if \<not> isExpanded (objs s d) then Some (Inr (s, rest))
           else bindR (Directory_setExpanded_rest s d ev) (\<lambda>c. Some (Inr (fst c, snd c @ rest))))
      | AwaitParent d # rest \<Rightarrow> bindR (setExpanded_merge s d) (\<lambda>s1. Some (Inr (s1, rest))))"

partial_function (option) Directory_setExpanded_run ::
  "state \<Rightarrow> frame list \<Rightarrow> (error + state) option" where
  "Directory_setExpanded_run s fs =
     (case fs of
        [] \<Rightarrow> Some (Inr s)
      | f # rest \<Rightarrow>
          Option.bind
            (case f of AwaitLoad d ev \<Rightarrow> hardReload_finish s d | AwaitParent d \<Rightarrow> Some (Inr s))
            (\<lambda>r. case r of
               Inl e \<Rightarrow> Some (Inl e)
             | Inr s1 \<Rightarrow>
                 Option.bind (Directory_setExpanded_resume s1 fs)
                   (\<lambda>r. case r of
                      Inl e \<Rightarrow> Some (Inl e)
                    | Inr c \<Rightarrow> Directory_setExpanded_run (fst c) (snd c))))"

declare Directory_setExpanded_run.simps [code]

definition Directory_setExpanded_awaited :: "state \<Rightarrow> uid \<Rightarrow> bool \<Rightarrow> state result" where
  "Directory_setExpanded_awaited s this ensureVisible =
     bindR (Directory_setExpanded_call s this ensureVisible)
       (\<lambda>c. Directory_setExpanded_run (fst c) (snd c))"

text \<open>
  \<open>dispose\<close>.  \<open>Directory.dispose\<close> terminates the watcher, disposes the children
  and then runs \<open>FileEntry.dispose\<close>; the recursion over the children is written with
  a list of pending steps (\<open>Enter\<close>: the call of \<open>dispose\<close> on an object,
  \<open>Leave\<close>: its final \<open>super.dispose()\<close>).
\<close>

definition FileEntry_dispose :: "state \<Rightarrow> uid \<Rightarrow> state" where
  "FileEntry_dispose s this =
     (if disposed (objs s this) then s
      else
        (let s1 = dispatch s (WillDispose this);
             s2 = upd s1 this (\<lambda>e. e\<lparr>disposed := True\<rparr>);
             s3 = s2\<lparr>idToFileEntry := (idToFileEntry s2)(this := None)\<rparr>
         in dispatch s3 (DidDispose this)))"

datatype dispose_step = Enter uid | Leave uid

partial_function (option) dispose_steps :: "state \<Rightarrow> dispose_step list \<Rightarrow> (error + state) option"
  where
  "dispose_steps s todo =
     (case todo of
        [] \<Rightarrow> Some (Inr s)
      | Leave i # rest \<Rightarrow> dispose_steps (FileEntry_dispose s i) rest
      | Enter i # rest \<Rightarrow>
          (if ftype (objs s i) = Directory then
             (case watchTerminator (objs s i) of
                None \<Rightarrow>
                  dispose_steps s
                    (map Enter (case children (objs s i) of None \<Rightarrow> [] | Some cs \<Rightarrow> cs)
                       @ Leave i # rest)
              | Some t \<Rightarrow>
                  Option.bind (path s i)
                    (\<lambda>r. case r of
                       Inl e \<Rightarrow> Some (Inl e)
                     | Inr p \<Rightarrow>
                        (case callTerminator s i t p of
                           Inl e \<Rightarrow> Some (Inl e)
                         | Inr s1 \<Rightarrow>
                             dispose_steps s1
                               (map Enter (case children (objs s1 i) of None \<Rightarrow> [] | Some cs \<Rightarrow> cs)
                                  @ Leave i # rest))))
           else dispose_steps s (Leave i # rest)))"

declare dispose_steps.simps [code]

definition dispose :: "state \<Rightarrow> uid \<Rightarrow> state result" where
  "dispose s this = dispose_steps s [Enter this]"

text \<open>
  The loop \<open>while (!master.flattenedBranch)\<close> of \<open>insertItem\<close> and \<open>unlinkItem\<close>,
  which adds the change of size to every directory it climbs to; it never ends at a
  directory without parent and without array.
\<close>

partial_function (option) find_master :: "state \<Rightarrow> uid \<Rightarrow> int \<Rightarrow> (state \<times> uid) option" where
  "find_master s master delta =
     (if flattenedBranch (objs s master) \<noteq> None then Some (s, master)
      else (case parent (objs s master) of
              Some p \<Rightarrow>
                find_master (upd s p (\<lambda>e. e\<lparr>branchSize := branchSize e + delta\<rparr>)) p delta
            | None \<Rightarrow> find_master s master delta))"

declare find_master.simps [code]

definition visibleSize :: "state \<Rightarrow> uid \<Rightarrow> int" where
  "visibleSize s item =
     (if ftype (objs s item) = Directory \<and> expanded s item then branchSize (objs s item) else 0)"

fun index_of :: "'a list \<Rightarrow> 'a \<Rightarrow> nat option" where
  "index_of [] x = None"
| "index_of (y # ys) x = (if y = x then Some 0 else map_option Suc (index_of ys x))"

text \<open>
  \<open>insertItem\<close> for an item whose parent is \<open>this\<close> (the part after the first test).
\<close>

definition insertItem_here :: "state \<Rightarrow> uid \<Rightarrow> uid \<Rightarrow> state result" where
  "insertItem_here s this item =
     (case children (objs s this) of
        None \<Rightarrow> Some (Inl TypeError)
      | Some cs \<Rightarrow>
         (if index_of cs item \<noteq> None then Some (Inr s)
          else
            (let branchSizeIncrease = 1 + visibleSize s item;
                 sorted = sort_children s (cs @ [item]);
                 s1 = upd s this (\<lambda>e. e\<lparr>children := Some sorted\<rparr>);
                 s2 = upd s1 this (\<lambda>e. e\<lparr>branchSize := branchSize e + branchSizeIncrease\<rparr>)
             in Option.bind (find_master s2 this branchSizeIncrease) (\<lambda>(s3, master).
               (case flattenedBranch (objs s3 master) of
                  None \<Rightarrow> Some (Inl TypeError)
                | Some mfb \<Rightarrow>
                   (let relativeInsertionIndex =
                          (case index_of sorted item of
                             Some (Suc k) \<Rightarrow>
                               indexOf mfb (sorted ! k) + visibleSize s3 (sorted ! k)
                           | _ \<Rightarrow> indexOf mfb this);
                        absInsertionIndex = relativeInsertionIndex + 1
                    in if branchSizeIncrease < 0 then Some (Inl RangeError)
                       else
                        (let branch0 = replicate (nat branchSizeIncrease) 0;
                             branch1 = (if branch0 = [] then branch0 else branch0[0 := u32 item])
                         in (case (if ftype (objs s3 item) = Directory \<and> expanded s3 item
                                   then flattenedBranch (objs s3 item) else None) of
                               None \<Rightarrow>
                                 (case spliceTypedArray mfb absInsertionIndex 0 (Some branch1) of
                                    Inl e \<Rightarrow> Some (Inl e)
                                  | Inr a \<Rightarrow> Some (Inr (setFlattenedBranch s3 master (Some a))))
                             | Some ifb \<Rightarrow>
                                 (case typed_set branch1 ifb 1 of
                                    Inl e \<Rightarrow> Some (Inl e)
                                  | Inr branch2 \<Rightarrow>
                                     (let s4 = setFlattenedBranch s3 item None in
                                      (case flattenedBranch (objs s4 master) of
                                         None \<Rightarrow> Some (Inl TypeError)
                                       | Some mfb4 \<Rightarrow>
                                          (case spliceTypedArray mfb4 absInsertionIndex 0 (Some branch2) of
                                             Inl e \<Rightarrow> Some (Inl e)
                                           | Inr a \<Rightarrow>
                                              Some (Inr (setFlattenedBranch s4 master (Some a)))))))))))))))"

text \<open>
  \<open>unlinkItem\<close> up to its last statement; the flag tells whether that last statement is
  reached (neither early \<open>return\<close> was taken).
\<close>

definition unlinkItem_core :: "state \<Rightarrow> uid \<Rightarrow> uid \<Rightarrow> (state \<times> bool) result" where
  "unlinkItem_core s this item =
     (case children (objs s this) of
        None \<Rightarrow> Some (Inl TypeError)
      | Some cs \<Rightarrow>
         (case index_of cs item of
            None \<Rightarrow> Some (Inr (s, False))
          | Some idx \<Rightarrow>
             (let s1 = upd s this (\<lambda>e. e\<lparr>children := Some (take idx cs @ drop (Suc idx) cs)\<rparr>);
                  branchSizeDecrease = 1 + visibleSize s1 item;
                  s2 = upd s1 this (\<lambda>e. e\<lparr>branchSize := branchSize e - branchSizeDecrease\<rparr>)
              in Option.bind (find_master s2 this (- branchSizeDecrease)) (\<lambda>(s3, master).
                (case flattenedBranch (objs s3 master) of
                   None \<Rightarrow> Some (Inl TypeError)
                 | Some mfb \<Rightarrow>
                    (let removalBeginIdx = indexOf mfb item in
                     if removalBeginIdx = - 1 then Some (Inr (s3, False))
                     else
                      (let s4 = (if ftype (objs s3 item) = Directory \<and> expanded s3 item
                                 then setFlattenedBranch s3 item
                                        (Some (slice mfb (removalBeginIdx + 1)
                                                 (removalBeginIdx + branchSizeDecrease)))
                                 else s3)
                       in (case flattenedBranch (objs s4 master) of
                             None \<Rightarrow> Some (Inl TypeError)
                           | Some mfb4 \<Rightarrow>
                              (case spliceTypedArray mfb4 removalBeginIdx branchSizeDecrease None of
                                 Inl e \<Rightarrow> Some (Inl e)
                               | Inr a \<Rightarrow>
                                   Some (Inr (setFlattenedBranch s4 master (Some a), True)))))))))))"

text \<open>
  \<open>mv\<close>.  \<open>FileEntry.mv\<close> is the part every entry runs (\<open>super.mv\<close> for a
  directory); \<open>Directory.mv\<close> wraps it with the renewal of the watcher.  Where \<open>mv\<close>
  calls \<open>unlinkItem\<close>, that call never reaches the last statement of \<open>unlinkItem\<close>
  (it is told \<open>reparenting\<close>, or the parent link is already cleared), so it is
  \<open>unlinkItem_core\<close>; where it calls \<open>insertItem\<close>, the parent link is already the
  destination, so it is \<open>insertItem_here\<close>.  The refresh of the descendants' cached paths
  and depths has no counterpart here, where paths are not cached.
\<close>

definition FileEntry_mv :: "state \<Rightarrow> uid \<Rightarrow> uid option \<Rightarrow> string option \<Rightarrow> state result" where
  "FileEntry_mv s this to fname =
     (case (case to of None \<Rightarrow> None
            | Some t \<Rightarrow> if ftype (objs s t) \<noteq> Directory then None else Some t) of
        None \<Rightarrow>
          (let prevParent = parent (objs s this) in
           bindR (if ftype (objs s this) = Directory then dispose s this
                  else Some (Inr (FileEntry_dispose s this)))
             (\<lambda>s1.
                (let s2 = upd s1 this (\<lambda>e. e\<lparr>parent := None\<rparr>) in
                 (case prevParent of
                    None \<Rightarrow> Some (Inl TypeError)
                  | Some pp \<Rightarrow> bindR (unlinkItem_core s2 pp this) (\<lambda>(s3, b). Some (Inr s3))))))
      | Some t \<Rightarrow>
          (let prevParent = parent (objs s this);
               didChangeParent = (prevParent \<noteq> Some t)
           in bindR (path s this) (\<lambda>prevPath.
                bindR
                  (if didChangeParent \<or> fname \<noteq> fileName (objs s this) then
                     (let s1 = upd s this (\<lambda>e. e\<lparr>fileName := fname\<rparr>);
                          s2 = (if didChangeParent then dispatch s1 (WillChangeParent this prevParent t)
                                else s1)
                      in (case parent (objs s2 this) of
                            None \<Rightarrow> Some (Inl TypeError)
                          | Some pp \<Rightarrow>
                              bindR (unlinkItem_core s2 pp this) (\<lambda>(s3, b).
                                bindR (insertItem_here (upd s3 this (\<lambda>e. e\<lparr>parent := Some t\<rparr>)) t this)
                                  (\<lambda>s4. Some (Inr (if didChangeParent
                                                     then dispatch s4 (DidChangeParent this prevParent t)
                                                     else s4))))))
                   else Some (Inr s))
                  (\<lambda>s5. bindR (path s5 this) (\<lambda>newPath.
                     Some (Inr (if newPath \<noteq> prevPath then dispatch s5 (DidChangePath this)
                                else s5)))))))"

definition Directory_mv :: "state \<Rightarrow> uid \<Rightarrow> uid option \<Rightarrow> string option \<Rightarrow> state result" where
  "Directory_mv s this to newName =
     bindR (path s this) (\<lambda>prevPath.
       bindR (FileEntry_mv s this to newName) (\<lambda>s1.
         if disposed (objs s1 this) then Some (Inr s1)
         else
           (case watchTerminator (objs s1 this) of
              None \<Rightarrow> Some (Inr s1)
            | Some t \<Rightarrow>
                bindR (liftE (callTerminator s1 this t prevPath)) (\<lambda>s2.
                  if children (objs s2 this) \<noteq> None then
                    bindR (path s2 this) (\<lambda>p.
                      (let (s3, t3) = supervisedWatch s2 p this in
                       Some (Inr (upd s3 this (\<lambda>e. e\<lparr>watchTerminator := Some t3\<rparr>)))))
                  else Some (Inr s2)))))"

definition mv :: "state \<Rightarrow> uid \<Rightarrow> uid option \<Rightarrow> string option \<Rightarrow> state result" where
  "mv s this to fname =
     (if ftype (objs s this) = Directory then Directory_mv s this to fname
      else FileEntry_mv s this to fname)"

definition unlinkItem :: "state \<Rightarrow> uid \<Rightarrow> uid \<Rightarrow> bool \<Rightarrow> state result" where
  "unlinkItem s this item reparenting =
     bindR (unlinkItem_core s this item)
       (\<lambda>(s1, reached).
          if reached \<and> \<not> reparenting \<and> parent (objs s1 item) = Some this
          then mv s1 item None (fileName (objs s1 item)) else Some (Inr s1))"

definition insertItem :: "state \<Rightarrow> uid \<Rightarrow> uid \<Rightarrow> state result" where
  "insertItem s this item =
     (if parent (objs s item) \<noteq> Some this then mv s item (Some this) (fileName (objs s item))
      else insertItem_here s this item)"

text \<open>
  The lookup in the loaded tree.  A result is an entry, \<open>null\<close> or \<open>undefined\<close>.
\<close>

datatype lookup = Entry uid | Null | Undefined

fun walkPathTillRelative_loop :: "string list \<Rightarrow> string list \<Rightarrow> error + string list" where
  "walkPathTillRelative_loop [] pathfrags = Inr pathfrags"
| "walkPathTillRelative_loop (nextRootFrag # rootPrefix) pathfrags =
     (if nextRootFrag = [] then Inr pathfrags
      else (case pathfrags of
              [] \<Rightarrow> Inl PlainError
            | f # fs \<Rightarrow>
                (if nextRootFrag = f then walkPathTillRelative_loop rootPrefix fs
                 else Inl PlainError)))"

definition walkPathTillRelative :: "state \<Rightarrow> string \<Rightarrow> error + string list" where
  "walkPathTillRelative s p =
     walkPathTillRelative_loop (splitPath (pathfx_of s) (rootPath s)) (splitPath (pathfx_of s) p)"

fun findFileEntry_loop :: "state \<Rightarrow> uid list option \<Rightarrow> string list \<Rightarrow> error + lookup" where
  "findFileEntry_loop s next [] = Inr Undefined"
| "findFileEntry_loop s next (fileName' # pathfrags) =
     (if fileName' = [] then Inr Undefined
      else (case next of
              None \<Rightarrow> Inl TypeError
            | Some cs \<Rightarrow>
               (case find (\<lambda>c. fileName (objs s c) = Some fileName') cs of
                  None \<Rightarrow> Inl PlainError
                | Some item \<Rightarrow>
                    (if pathfrags = [] then Inr (Entry item)
                     else if ftype (objs s item) = File then Inl PlainError
                     else (case children (objs s item) of
                             None \<Rightarrow> Inr Null
                           | Some ks \<Rightarrow> findFileEntry_loop s (Some ks) pathfrags)))))"

definition findFileEntryInLoadedTree :: "state \<Rightarrow> string \<Rightarrow> error + lookup" where
  "findFileEntryInLoadedTree s p =
     (case (if isRelative (pathfx_of s) p then Inr (splitPath (pathfx_of s) p)
            else walkPathTillRelative s p) of
        Inl e \<Rightarrow> Inl e
      | Inr pathfrags \<Rightarrow>
          (if pathfrags = [] then Inr (Entry (rootId s))
           else findFileEntry_loop s (children (objs s (rootId s))) pathfrags))"

text \<open>The watch reconciler of a directory.\<close>

definition transferItem :: "state \<Rightarrow> uid \<Rightarrow> string \<Rightarrow> string \<Rightarrow> state result" where
  "transferItem s this oldPath newPath =
     (let from = dirname (pathfx_of s) oldPath in
      bindR (path s this) (\<lambda>thisPath.
        if from \<noteq> thisPath then Some (Inr s)
        else
          (case children (objs s this) of
             None \<Rightarrow> Some (Inl TypeError)
           | Some cs \<Rightarrow>
              (case find (\<lambda>c. fileName (objs s c) = Some (basename (pathfx_of s) oldPath)) cs of
                 None \<Rightarrow> Some (Inr s)
               | Some item \<Rightarrow>
                  (let to = dirname (pathfx_of s) newPath in
                   bindR (liftE (if to = from then Inr (Entry this)
                                 else findFileEntryInLoadedTree s to))
                     (\<lambda>destDir.
                        (case (case destDir of
                                 Entry d \<Rightarrow> if ftype (objs s d) = Directory then Some d else None
                               | _ \<Rightarrow> None) of
                           None \<Rightarrow> unlinkItem s this item False
                         | Some d \<Rightarrow> mv s item (Some d) (Some (basename (pathfx_of s) newPath)))))))))"

fun dispose_children :: "state \<Rightarrow> uid list \<Rightarrow> state result" where
  "dispose_children s [] = Some (Inr s)"
| "dispose_children s (c # cs) = bindR (dispose s c) (\<lambda>s1. dispose_children s1 cs)"

text \<open>
  \<open>handleWatchEvent\<close>, up to the point where the promise it returns is resolved: for a
  generic change the reload is started and not waited for.
\<close>

definition handleWatchEvent :: "state \<Rightarrow> uid \<Rightarrow> watcher_event \<Rightarrow> state result" where
  "handleWatchEvent s this event =
     (let s0 = dispatch s (WillProcessWatchEvent this event) in
      bindR
        (case event of
           Moved oldPath newPath \<Rightarrow>
             (if isRelative (pathfx_of s0) oldPath then Some (Inl TypeError)
              else if isRelative (pathfx_of s0) newPath then Some (Inl TypeError)
              else transferItem s0 this oldPath newPath)
         | Added directory file \<Rightarrow>
             bindR (liftE (checkRawFile file)) (\<lambda>u.
               (case file of
                  RawObject ty nm \<Rightarrow>
                    (let (s1, newItem) =
                           new_entry s0 (if ty = RawType Directory then Directory else File)
                             (Some this) nm
                     in insertItem s1 this newItem)
                | _ \<Rightarrow> Some (Inl TypeError)))
         | Removed p \<Rightarrow>
             bindR (path s0 this) (\<lambda>thisPath.
               if dirname (pathfx_of s0) p = thisPath then
                 (case children (objs s0 this) of
                    None \<Rightarrow> Some (Inl TypeError)
                  | Some cs \<Rightarrow>
                     (case find (\<lambda>c. fileName (objs s0 c) = Some (basename (pathfx_of s0) p)) cs of
                        None \<Rightarrow> Some (Inr s0)
                      | Some item \<Rightarrow> unlinkItem s0 this item False))
               else Some (Inr s0))
         | Changed directory \<Rightarrow>
             (case children (objs s0 this) of
                None \<Rightarrow> Some (Inl TypeError)
              | Some cs \<Rightarrow> bindR (dispose_children s0 cs) (\<lambda>s1. hardReload_begin s1 this)))
        (\<lambda>s2. Some (Inr (dispatch s2 (DidProcessWatchEvent this event)))))"

subsection \<open>Root\<close>

text \<open>The root overrides both with a no-op; every other directory inherits them.\<close>

definition setExpanded :: "state \<Rightarrow> uid \<Rightarrow> bool \<Rightarrow> state result" where
  "setExpanded s this ensureVisible =
     (if this = rootId s then Some (Inr s) else Directory_setExpanded s this ensureVisible)"

definition setCollapsed :: "state \<Rightarrow> uid \<Rightarrow> state result" where
  "setCollapsed s this =
     (if this = rootId s then Some (Inr s) else Directory_setCollapsed s this)"

definition setExpanded_call :: "state \<Rightarrow> uid \<Rightarrow> bool \<Rightarrow> (state \<times> frame list) result" where
  "setExpanded_call s this ensureVisible =
     (if this = rootId s then Some (Inr (s, []))
      else Directory_setExpanded_call s this ensureVisible)"

definition setExpanded_awaited :: "state \<Rightarrow> uid \<Rightarrow> bool \<Rightarrow> state result" where
  "setExpanded_awaited s this ensureVisible =
     (if this = rootId s then Some (Inr s)
      else Directory_setExpanded_awaited s this ensureVisible)"

definition getFileEntryAtIndex :: "state \<Rightarrow> int \<Rightarrow> error + uid option" where
  "getFileEntryAtIndex s index =
     (case flattenedBranch (objs s (rootId s)) of
        None \<Rightarrow> Inl TypeError
      | Some fb \<Rightarrow>
          Inr (getFileEntryById s
                 (if 0 \<le> index \<and> index < int (length fb) then Some (fb ! nat index) else None)))"

text \<open>
  The constructor of \<open>Root\<close>, given the static counter and registry of \<open>FileEntry\<close> it
  starts from; it ends with \<open>super.setExpanded()\<close>, whose load completes at once here.
\<close>

definition Root_fields ::
  "pathfx \<Rightarrow> (string \<Rightarrow> raw_item list) \<Rightarrow> bool \<Rightarrow> (file_entry \<Rightarrow> file_entry \<Rightarrow> int) option \<Rightarrow> bool
     \<Rightarrow> string \<Rightarrow> nat \<Rightarrow> (nat \<rightharpoonup> uid) \<Rightarrow> state \<times> uid" where
  "Root_fields pfx items watch cmp dev root nid reg =
     (let (s1, r) =
        new_entry
          \<lparr> objs = (\<lambda>i. \<lparr> ftype = File, ctor = FileEntryClass, parent = None, fileName = None,
                            disposed = False, children = None, branchSize = 0,
                            flattenedBranch = None, isExpanded = False, watchTerminator = None,
                            hardReloadPromise = None \<rparr>),
            idToFileEntry = reg, nextId = nid, rootId = nid, rootPath = root,
            pathfx_of = pfx, getItems = items, hostWatch = watch, sortComparator = cmp,
            devChecks = dev, fswatchers = Map.empty, changeEventDispatchQueue = [],
            events = [] \<rparr>
          Directory None RawNonString
      in (upd s1 r (\<lambda>e. e\<lparr>ctor := RootClass\<rparr>), r))"

definition Root_new ::
  "pathfx \<Rightarrow> (string \<Rightarrow> raw_item list) \<Rightarrow> bool \<Rightarrow> (file_entry \<Rightarrow> file_entry \<Rightarrow> int) option \<Rightarrow> bool
     \<Rightarrow> string \<Rightarrow> nat \<Rightarrow> (nat \<rightharpoonup> uid) \<Rightarrow> state result" where
  "Root_new pfx items watch cmp dev root nid reg =
     (if isRelative pfx root then Some (Inl PlainError)
      else (let (s1, r) = Root_fields pfx items watch cmp dev root nid reg
            in Directory_setExpanded s1 r True))"

text \<open>
  The state in which the constructor hands the new root to its caller: \<open>super.setExpanded()\<close>
  has set the flag and waits for the host's first answer.
\<close>

definition Root_new_pending ::
  "pathfx \<Rightarrow> (string \<Rightarrow> raw_item list) \<Rightarrow> bool \<Rightarrow> (file_entry \<Rightarrow> file_entry \<Rightarrow> int) option \<Rightarrow> bool
     \<Rightarrow> string \<Rightarrow> nat \<Rightarrow> (nat \<rightharpoonup> uid) \<Rightarrow> state result" where
  "Root_new_pending pfx items watch cmp dev root nid reg =
     (if isRelative pfx root then Some (Inl PlainError)
      else (let (s1, r) = Root_fields pfx items watch cmp dev root nid reg
            in hardReload_begin (upd s1 r (\<lambda>e. e\<lparr>isExpanded := True\<rparr>)) r))"

text \<open>
  The queue of generic change notifications.  The timer that calls \<open>flushEventQueue\<close>
  is not modelled: a flush is a call like any other.  \<open>flushEventQueue\<close> runs the callbacks
  in series, each up to the resolution of its promise.
\<close>

definition queueChangeEvent :: "state \<Rightarrow> string \<Rightarrow> state" where
  "queueChangeEvent s abspath =
     (if index_of (changeEventDispatchQueue s) abspath = None
      then s\<lparr>changeEventDispatchQueue := changeEventDispatchQueue s @ [abspath]\<rparr>
      else s)"

definition sortQueue :: "state \<Rightarrow> string list \<Rightarrow> string list" where
  "sortQueue s q = sort_by (\<lambda>pathA pathB. pathDepth (pathfx_of s) pathA - pathDepth (pathfx_of s) pathB) q"

fun flush_series :: "state \<Rightarrow> string list \<Rightarrow> state result" where
  "flush_series s [] = Some (Inr s)"
| "flush_series s (p # ps) =
     bindR (case fswatchers s p of
              None \<Rightarrow> Some (Inr s)
            | Some d \<Rightarrow> handleWatchEvent s d (Changed p))
       (\<lambda>s1. flush_series s1 ps)"

definition flushEventQueue :: "state \<Rightarrow> state result" where
  "flushEventQueue s =
     (if changeEventDispatchQueue s = [] then Some (Inr s)
      else flush_series (s\<lparr>changeEventDispatchQueue := []\<rparr>)
             (sortQueue s (changeEventDispatchQueue s)))"

text \<open>
  \<open>inotify\<close> and \<open>dispatchWatchEvent\<close> call the watcher's callback and do not wait for
  it; what they are given here as result is the outcome of the promise the callback
  returns (an exception of the callback is a rejection of that promise).
\<close>

definition dispatchWatchEvent :: "state \<Rightarrow> string \<Rightarrow> watcher_event \<Rightarrow> state result" where
  "dispatchWatchEvent s p event =
     (case fswatchers s (normalize (pathfx_of s) p) of
        None \<Rightarrow> Some (Inr s)
      | Some d \<Rightarrow> handleWatchEvent s d event)"

definition inotify :: "state \<Rightarrow> watcher_event \<Rightarrow> state result" where
  "inotify s event =
     (case event of
        Moved oldPath newPath \<Rightarrow> dispatchWatchEvent s (dirname (pathfx_of s) oldPath) event
      | Removed p \<Rightarrow> dispatchWatchEvent s (dirname (pathfx_of s) p) event
      | Added directory file \<Rightarrow> dispatchWatchEvent s directory event
      | Changed directory \<Rightarrow> Some (Inr (queueChangeEvent s directory)))"


section \<open>A concrete host\<close>

text \<open>
  Modelled from the spec: the path utilities of the POSIX style (\<open>join\<close>, \<open>dirname\<close>,
  \<open>basename\<close>, \<open>normalize\<close> of section 1 and 6; the library that implements them is not
  part of the repository).  Paths are split at \<open>/\<close>, empty segments dropped; the depth of
  a path is the number of its segments.  They are used for concrete trees only.
\<close>

fun split_at :: "char \<Rightarrow> string \<Rightarrow> string \<Rightarrow> string list" where
  "split_at c acc [] = [rev acc]"
| "split_at c acc (x # xs) =
     (if x = c then rev acc # split_at c [] xs else split_at c (x # acc) xs)"

definition unix_splitPath :: "string \<Rightarrow> string list" where
  "unix_splitPath p = filter (\<lambda>f. f \<noteq> []) (split_at (CHR ''/'') [] p)"

definition unix :: pathfx where
  "unix = \<lparr> isRelative = (\<lambda>p. case p of [] \<Rightarrow> True | c # cs \<Rightarrow> c \<noteq> CHR ''/''),
            join = (\<lambda>a b. a @ ''/'' @ b),
            dirname = (\<lambda>p. concat (map (\<lambda>f. ''/'' @ f) (butlast (unix_splitPath p)))),
            basename = (\<lambda>p. case unix_splitPath p of [] \<Rightarrow> [] | f # fs \<Rightarrow> last (f # fs)),
            splitPath = unix_splitPath,
            pathDepth = (\<lambda>p. int (length (unix_splitPath p))),
            normalize = (\<lambda>p. p) \<rparr>"

definition file_item :: "string \<Rightarrow> raw_item" where
  "file_item n = RawObject (RawType File) (RawString n)"

definition dir_item :: "string \<Rightarrow> raw_item" where
  "dir_item n = RawObject (RawType Directory) (RawString n)"

text \<open>A host whose root \<open>/root\<close> lists \<open>b.txt\<close> and \<open>a/\<close>, and whose \<open>a/\<close> lists \<open>c.txt\<close>.\<close>

definition host_ab :: "string \<Rightarrow> raw_item list" where
  "host_ab p =
     (if p = ''/root'' then [file_item ''b.txt'', dir_item ''a'']
      else if p = ''/root/a'' then [file_item ''c.txt'']
      else [])"

text \<open>A host with three levels: \<open>/root\<close> lists \<open>a/\<close>, which lists \<open>d/\<close>, which lists \<open>x.txt\<close>.\<close>

definition host_deep :: "string \<Rightarrow> raw_item list" where
  "host_deep p =
     (if p = ''/root'' then [dir_item ''a'']
      else if p = ''/root/a'' then [dir_item ''d'']
      else if p = ''/root/a/d'' then [file_item ''x.txt'']
      else [])"

text \<open>
  A host whose root lists the directories \<open>a/\<close> (holding \<open>x.txt\<close>) and \<open>b/\<close>
  (holding \<open>y.txt\<close>).
\<close>

definition host_two :: "string \<Rightarrow> raw_item list" where
  "host_two p =
     (if p = ''/root'' then [dir_item ''a'', dir_item ''b'']
      else if p = ''/root/a'' then [file_item ''x.txt'']
      else if p = ''/root/b'' then [file_item ''y.txt'']
      else [])"

text \<open>A host that lists one object whose \<open>type\<close> and \<open>name\<close> are both of the wrong kind.\<close>

definition host_malformed :: "string \<Rightarrow> raw_item list" where
  "host_malformed p = [RawObject RawTypeOther RawNonString]"

section \<open>Notions used to state the properties\<close>

text \<open>A call returns, and what it returns satisfies a predicate.\<close>

definition returns :: "'a result \<Rightarrow> ('a \<Rightarrow> bool) \<Rightarrow> bool" where
  "returns r P = (case r of Some (Inr x) \<Rightarrow> P x | _ \<Rightarrow> False)"



text \<open>
  The rows a caller sees: the names of the entries \<open>getFileEntryAtIndex\<close> answers for
  the indices below the root's \<open>branchSize\<close>.
\<close>

definition row_name :: "state \<Rightarrow> nat \<Rightarrow> string option" where
  "row_name s k =
     (case getFileEntryAtIndex s (int k) of
        Inr (Some i) \<Rightarrow> fileName (objs s i)
      | _ \<Rightarrow> None)"

definition rows :: "state \<Rightarrow> string option list" where
  "rows s = map (row_name s) [0 ..< nat (branchSize (objs s (rootId s)))]"

text \<open>
  The directories a walk that starts at \<open>a\<close> climbs through, up to and including the
  first one that owns an array (or the one without parent, where the walk ends).
\<close>

partial_function (option) climb :: "state \<Rightarrow> uid \<Rightarrow> uid list option" where
  "climb s a =
     (if flattenedBranch (objs s a) \<noteq> None then Some [a]
      else (case parent (objs s a) of
              None \<Rightarrow> Some [a]
            | Some p \<Rightarrow> Option.bind (climb s p) (\<lambda>as. Some (a # as))))"

declare climb.simps [code]

text \<open>
  The heap in which the \<open>branchSize\<close> of every directory of a list has grown by
  \<open>delta\<close>: what a walk leaves behind on the directories it climbed through.
\<close>

definition bumped :: "(uid \<Rightarrow> file_entry) \<Rightarrow> uid list \<Rightarrow> int \<Rightarrow> uid \<Rightarrow> file_entry" where
  "bumped h as delta = (\<lambda>x. if x \<in> set as then (h x)\<lparr>branchSize := branchSize (h x) + delta\<rparr> else h x)"

definition bump :: "state \<Rightarrow> uid list \<Rightarrow> int \<Rightarrow> state" where
  "bump s as delta = s\<lparr>objs := bumped (objs s) as delta\<rparr>"

text \<open>
  The state \<open>setCollapsed\<close> returns, when the walk from the parent \<open>p\<close> of \<open>d\<close> climbs
  through \<open>as\<close> and ends at an owner whose array is \<open>fo\<close>.
\<close>

definition collapsed_state :: "state \<Rightarrow> uid \<Rightarrow> uid list \<Rightarrow> nat list \<Rightarrow> state" where
  "collapsed_state s d as fo =
     (let i = indexOf fo d + 1;
          taken = slice fo i (i + branchSize (objs s d));
          arr = take (nat i) fo @ drop (nat i + length taken) fo;
          s1 = bump (dispatch s (WillChangeExpansionState d False)) as (- branchSize (objs s d));
          s2 = setFlattenedBranch (setFlattenedBranch s1 d (Some taken)) (last as) (Some arr);
          s3 = upd s2 d (\<lambda>e. e\<lparr>isExpanded := False\<rparr>)
      in dispatch s3 (DidChangeExpansionState d False
           (case flattenedBranch (objs s3 (rootId s)) of Some fr \<Rightarrow> indexOf fr d > - 1
            | None \<Rightarrow> False)))"

text \<open>
  The state \<open>setExpanded\<close> returns for a loaded, collapsed directory whose parent needs
  no expansion, when the walk from the parent climbs through \<open>as\<close> and ends at an owner
  whose array is \<open>fo\<close>.
\<close>

definition expanded_state :: "state \<Rightarrow> uid \<Rightarrow> uid list \<Rightarrow> nat list \<Rightarrow> state" where
  "expanded_state s d as fo =
     (let i = indexOf fo d + 1;
          arr = take (nat i) fo
                  @ (case flattenedBranch (objs s d) of Some fd \<Rightarrow> fd | None \<Rightarrow> [])
                  @ drop (nat i) fo;
          s1 = upd s d (\<lambda>e. e\<lparr>isExpanded := True\<rparr>);
          s2 = bump (dispatch s1 (WillChangeExpansionState d True)) as (branchSize (objs s d));
          s3 = setFlattenedBranch (setFlattenedBranch s2 (last as) (Some arr)) d None
      in dispatch s3 (DidChangeExpansionState d True
           (case flattenedBranch (objs s3 (rootId s)) of Some fr \<Rightarrow> indexOf fr d > - 1
            | None \<Rightarrow> False)))"


section \<open>Basic facts\<close>

lemma returns_mono: "returns r P \<Longrightarrow> (\<And>x. P x \<Longrightarrow> Q x) \<Longrightarrow> returns r Q"
  by (auto simp: returns_def split: option.splits sum.splits)

lemma returns_Some: "returns (Some (Inr x)) P = P x"
  by (simp add: returns_def)

subsection \<open>Climbing to the owner\<close>

lemma climb_owner: "flattenedBranch (objs s a) \<noteq> None \<Longrightarrow> climb s a = Some [a]"
  by (subst climb.simps) simp

lemma climb_top:
  "flattenedBranch (objs s a) = None \<Longrightarrow> parent (objs s a) = None \<Longrightarrow> climb s a = Some [a]"
  by (subst climb.simps) simp

lemma climb_step:
  "flattenedBranch (objs s a) = None \<Longrightarrow> parent (objs s a) = Some p \<Longrightarrow> climb s p = Some as
     \<Longrightarrow> climb s a = Some (a # as)"
  by (subst climb.simps) simp

lemma climb_NilE: "climb s a = Some [] \<Longrightarrow> P"
  by (subst (asm) climb.simps) (simp split: if_splits option.splits Option.bind_splits)

lemma climb_cases:
  "climb s a = Some as \<longleftrightarrow>
     (flattenedBranch (objs s a) \<noteq> None \<and> as = [a]) \<or>
     (flattenedBranch (objs s a) = None \<and> parent (objs s a) = None \<and> as = [a]) \<or>
     (\<exists>p as'. flattenedBranch (objs s a) = None \<and> parent (objs s a) = Some p
          \<and> climb s p = Some as' \<and> as = a # as')"
  by (subst climb.simps) (auto split: option.splits Option.bind_splits)

lemma climb_ConsE:
  assumes "climb s a = Some (x # xs)"
  obtains (last) "x = a" "xs = []" "flattenedBranch (objs s a) \<noteq> None \<or> parent (objs s a) = None"
    | (step) p where "x = a" "flattenedBranch (objs s a) = None" "parent (objs s a) = Some p"
        "climb s p = Some xs"
proof -
  from climb_cases[THEN iffD1, OF assms] have
    "(flattenedBranch (objs s a) \<noteq> None \<and> x # xs = [a]) \<or>
     (flattenedBranch (objs s a) = None \<and> parent (objs s a) = None \<and> x # xs = [a]) \<or>
     (\<exists>p as'. flattenedBranch (objs s a) = None \<and> parent (objs s a) = Some p
          \<and> climb s p = Some as' \<and> x # xs = a # as')"
    .
  then show thesis
    by (elim disjE exE conjE) (simp_all add: last step)
qed

lemma climb_frame:
  assumes "\<And>x. flattenedBranch (objs s' x) = flattenedBranch (objs s x)"
      and "\<And>x. parent (objs s' x) = parent (objs s x)"
  shows "climb s a = Some as \<Longrightarrow> climb s' a = Some as"
proof (induction as arbitrary: a)
  case Nil
  then show ?case by (rule climb_NilE)
next
  case (Cons x xs)
  from Cons.prems show ?case
  proof (cases rule: climb_ConsE)
    case last
    then show ?thesis
      by (metis assms climb_owner climb_top)
  next
    case (step p)
    then show ?thesis using Cons.IH[of p] by (simp add: climb_step assms)
  qed
qed

lemma climb_suffix:
  "climb s a = Some as \<Longrightarrow> x \<in> set as \<Longrightarrow> \<exists>pre suf. as = pre @ suf \<and> climb s x = Some suf"
proof (induction as arbitrary: a)
  case Nil
  then show ?case by simp
next
  case (Cons y ys)
  from Cons.prems(1) show ?case
  proof (cases rule: climb_ConsE)
    case last
    with Cons.prems have "x = a" by simp
    then show ?thesis using Cons.prems(1) by (intro exI[of _ "[]"] exI[of _ "y # ys"]) simp
  next
    case (step p)
    show ?thesis
    proof (cases "x = a")
      case True
      then show ?thesis using Cons.prems(1) by (intro exI[of _ "[]"] exI[of _ "y # ys"]) simp
    next
      case False
      with Cons.prems step have xin: "x \<in> set ys" by simp
      from Cons.IH[OF step(4) xin] obtain pre suf where "ys = pre @ suf" "climb s x = Some suf" by blast
      then show ?thesis by (intro exI[of _ "y # pre"] exI[of _ suf]) simp
    qed
  qed
qed

lemma climb_distinct: "climb s a = Some as \<Longrightarrow> distinct as"
proof (induction as arbitrary: a)
  case Nil
  then show ?case by simp
next
  case (Cons y ys)
  from Cons.prems show ?case
  proof (cases rule: climb_ConsE)
    case last
    then show ?thesis by simp
  next
    case (step p)
    have "distinct ys" using Cons.IH[OF step(4)] .
    moreover have "a \<notin> set ys"
    proof
      assume "a \<in> set ys"
      from climb_suffix[OF step(4) this] obtain pre suf where ps: "ys = pre @ suf" "climb s a = Some suf" by blast
      with Cons.prems have "y # ys = suf" by simp
      with ps(1) have "length ys = length pre + Suc (length ys)" by (metis length_append length_Cons)
      then show False by simp
    qed
    ultimately show ?thesis using step(1) by simp
  qed
qed

subsection \<open>Arrays\<close>

lemma indexOf_notin: "x \<notin> set xs \<Longrightarrow> indexOf xs x = - 1"
  by (induction xs) (auto simp: Let_def)

lemma indexOf_ge: "- 1 \<le> indexOf xs x"
  by (induction xs) (auto simp: Let_def)

lemma indexOf_first: "x \<notin> set pre \<Longrightarrow> indexOf (pre @ x # post) x = int (length pre)"
  by (induction pre) (auto simp: Let_def)

lemma indexOf_lt: "indexOf xs x < int (length xs)"
  by (induction xs) (auto simp: Let_def)

lemma indexOf_in_iff: "indexOf xs x \<noteq> - 1 \<longleftrightarrow> x \<in> set xs"
proof
  assume "indexOf xs x \<noteq> - 1" then show "x \<in> set xs" using indexOf_notin by blast
next
  assume "x \<in> set xs"
  then obtain pre post where "xs = pre @ x # post" "x \<notin> set pre" by (meson split_list_first)
  then show "indexOf xs x \<noteq> - 1" by (simp add: indexOf_first)
qed

lemma slice_nonneg:
  "0 \<le> b \<Longrightarrow> 0 \<le> e \<Longrightarrow> slice xs b e = take (nat (e - b)) (drop (nat b) xs)"
  by (auto simp: slice_def Let_def min_def nat_diff_distrib)

lemma typed_set_nat:
  "typed_set a src (int k) =
     (if length a < length src + k then Inl RangeError
      else Inr (take k a @ src @ drop (k + length src) a))"
  by (simp add: typed_set_def)

lemma slice_nat: "slice xs (int b) (int e) = take (e - b) (drop b xs)"
  by (simp add: slice_nonneg nat_diff_distrib')

lemma typed_set_0:
  "typed_set a src 0 =
     (if length a < length src then Inl RangeError else Inr (src @ drop (length src) a))"
  using typed_set_nat[of a src 0] by simp

lemma typed_set_nat2:
  "typed_set a src (int k + int j) =
     (if length a < length src + (k + j) then Inl RangeError
      else Inr (take (k + j) a @ src @ drop (k + j + length src) a))"
  using typed_set_nat[of a src "k + j"] by simp

lemma spliceTypedArray_nat:
  assumes "st + dl \<le> length arr"
  shows "spliceTypedArray arr (int st) (int dl) items =
           Inr (take st arr @ (case items of Some i \<Rightarrow> i | None \<Rightarrow> []) @ drop (st + dl) arr)"
proof -
  have s1: "slice arr 0 (int st) = take st arr" using slice_nat[of arr 0 st] by simp
  have s2: "slice arr (int st + int dl) (int (length arr)) = drop (st + dl) arr"
    using slice_nat[of arr "st + dl" "length arr"] by simp
  show ?thesis
  proof (cases items)
    case None
    have n: "nat (int (length arr) - int dl) = length arr - dl" using assms by simp
    have n0: "\<not> int (length arr) - int dl < 0" using assms by simp
    show ?thesis
      unfolding spliceTypedArray_def items_length_def Let_def None
      using assms by (simp add: n n0 s1 s2 typed_set_0 typed_set_nat min_def) arith
  next
    case (Some i)
    have n: "nat (int (length arr) - int dl + int (length i)) = length arr - dl + length i"
      using assms by simp
    have n0: "\<not> int (length arr) - int dl + int (length i) < 0" using assms by simp
    show ?thesis
      unfolding spliceTypedArray_def items_length_def Let_def Some
      using assms by (simp add: n n0 s1 s2 typed_set_0 typed_set_nat typed_set_nat2 min_def) arith
  qed
qed

lemma spliceTypedArray_ok:
  assumes "0 \<le> start" "0 \<le> del" "start + del \<le> int (length arr)"
  shows "spliceTypedArray arr start del items =
           Inr (take (nat start) arr @ (case items of Some i \<Rightarrow> i | None \<Rightarrow> []) @ drop (nat (start + del)) arr)"
proof -
  obtain st dl where sd: "start = int st" "del = int dl" using assms by (metis nonneg_int_cases)
  with assms have "st + dl \<le> length arr" by simp
  from spliceTypedArray_nat[OF this, of items] show ?thesis by (simp add: sd nat_add_distrib)
qed

subsection \<open>The walks to the owner\<close>

lemma objs_upd: "objs (upd s i f) j = (if j = i then f (objs s i) else objs s j)"
  by (simp add: upd_def)

lemma bump_Cons:
  "a \<notin> set as \<Longrightarrow>
   bump (upd s a (\<lambda>e. e\<lparr>branchSize := branchSize e + delta\<rparr>)) as delta = bump s (a # as) delta"
  by (auto simp: bump_def bumped_def upd_def fun_eq_iff)

lemma bump_single:
  "upd s a (\<lambda>e. e\<lparr>branchSize := branchSize e + delta\<rparr>) = bump s [a] delta"
  by (auto simp: bump_def bumped_def upd_def fun_eq_iff)

lemma climb_nonempty: "climb s a = Some as \<Longrightarrow> as \<noteq> []"
  by (auto elim: climb_NilE)

lemma climb_upd_size:
  "climb s p = Some as \<Longrightarrow> climb (upd s a (\<lambda>e. e\<lparr>branchSize := f e\<rparr>)) p = Some as"
  by (erule climb_frame[rotated 2]) (simp_all add: upd_def)

lemma expandBranch_climb:
  assumes "climb s a = Some as" "d \<notin> set as" "flattenedBranch (objs s (last as)) = Some fo"
  shows "expandBranch s a d =
     (case spliceTypedArray fo (indexOf fo d + 1) 0 (flattenedBranch (objs s d)) of
        Inl e \<Rightarrow> Some (Inl e)
      | Inr arr \<Rightarrow>
          Some (Inr (setFlattenedBranch
                       (setFlattenedBranch (bump s as (branchSize (objs s d))) (last as) (Some arr))
                       d None)))"
  using assms
proof (induction as arbitrary: s a)
  case Nil
  then show ?case by (auto elim: climb_NilE)
next
  case (Cons x xs)
  from Cons.prems(1) show ?case
  proof (cases rule: climb_ConsE)
    case last
    with Cons.prems have f: "flattenedBranch (objs s a) = Some fo" and ad: "a \<noteq> d" by auto
    show ?thesis
      apply (subst expandBranch.simps)
      using f ad last
      apply (simp add: Let_def bump_single[symmetric] split: sum.splits)
      apply (simp add: upd_def)
      done
  next
    case (step p)
    let ?s1 = "upd s a (\<lambda>e. e\<lparr>branchSize := branchSize e + branchSize (objs s d)\<rparr>)"
    from Cons.prems step have ad: "a \<noteq> d" by auto
    have c1: "climb ?s1 p = Some xs" using step(4) by (rule climb_upd_size)
    have xs: "xs \<noteq> []" using step(4) climb_nonempty by blast
    have dx: "d \<notin> set xs" using Cons.prems by simp
    have f1: "flattenedBranch (objs ?s1 (last xs)) = Some fo"
      using Cons.prems(3) xs by (auto simp: upd_def)
    have an: "a \<notin> set xs" using climb_distinct[OF Cons.prems(1)] step(1) by simp
    have e: "expandBranch s a d = expandBranch ?s1 p d"
      apply (subst expandBranch.simps)
      using step ad apply (simp add: Let_def upd_def)
      done
    show ?thesis
      unfolding e Cons.IH[OF c1 dx f1]
      using ad xs step(1) by (simp add: objs_upd bump_Cons[OF an] split: sum.splits)
  qed
qed

lemma bump_Cons_minus:
  "a \<notin> set as \<Longrightarrow>
   bump (upd s a (\<lambda>e. e\<lparr>branchSize := branchSize e - delta\<rparr>)) as (- delta) = bump s (a # as) (- delta)"
  by (auto simp: bump_def bumped_def upd_def fun_eq_iff)

lemma bump_single_minus:
  "upd s a (\<lambda>e. e\<lparr>branchSize := branchSize e - delta\<rparr>) = bump s [a] (- delta)"
  by (auto simp: bump_def bumped_def upd_def fun_eq_iff)

lemma bump_Nil: "bump s [] delta = s"
  by (simp add: bump_def bumped_def)

lemma climb_hd: "climb s a = Some as \<Longrightarrow> hd as = a"
  by (cases as) (auto elim: climb_NilE climb_ConsE)

lemma shrinkBranch_climb:
  assumes "climb s a = Some as" "d \<notin> set as" "flattenedBranch (objs s (last as)) = Some fo"
  shows "shrinkBranch s a d =
     (let i = indexOf fo d + 1; taken = slice fo i (i + branchSize (objs s d)) in
      case spliceTypedArray fo i (int (length taken)) None of
        Inl e \<Rightarrow> Some (Inl e)
      | Inr arr \<Rightarrow>
          Some (Inr (setFlattenedBranch
                       (setFlattenedBranch (bump s as (- branchSize (objs s d))) d (Some taken))
                       (last as) (Some arr))))"
  using assms
proof (induction as arbitrary: s a)
  case Nil
  then show ?case by (auto elim: climb_NilE)
next
  case (Cons x xs)
  from Cons.prems(1) show ?case
  proof (cases rule: climb_ConsE)
    case last
    with Cons.prems have f: "flattenedBranch (objs s a) = Some fo" and ad: "a \<noteq> d" by auto
    show ?thesis
      apply (subst shrinkBranch.simps)
      using f ad last
      apply (simp add: Let_def bump_single_minus[symmetric] objs_upd split: sum.splits)
      done
  next
    case (step p)
    let ?s1 = "upd s a (\<lambda>e. e\<lparr>branchSize := branchSize e - branchSize (objs s d)\<rparr>)"
    from Cons.prems step have ad: "a \<noteq> d" by auto
    have c1: "climb ?s1 p = Some xs" using step(4) by (rule climb_upd_size)
    have xs: "xs \<noteq> []" using step(4) climb_nonempty by blast
    have dx: "d \<notin> set xs" using Cons.prems by simp
    have f1: "flattenedBranch (objs ?s1 (last xs)) = Some fo"
      using Cons.prems(3) xs by (auto simp: upd_def)
    have an: "a \<notin> set xs" using climb_distinct[OF Cons.prems(1)] step(1) by simp
    have e: "shrinkBranch s a d = shrinkBranch ?s1 p d"
      apply (subst shrinkBranch.simps)
      using step ad apply (simp add: Let_def upd_def)
      done
    show ?thesis
      unfolding e Cons.IH[OF c1 dx f1]
      using ad xs step(1) by (simp add: objs_upd bump_Cons_minus[OF an] Let_def split: sum.splits)
  qed
qed

lemma find_master_climb:
  assumes "climb s a = Some as" "flattenedBranch (objs s (last as)) \<noteq> None"
  shows "find_master s a delta = Some (bump s (tl as) delta, last as)"
  using assms
proof (induction as arbitrary: s a)
  case Nil
  then show ?case by (auto elim: climb_NilE)
next
  case (Cons x xs)
  from Cons.prems(1) show ?case
  proof (cases rule: climb_ConsE)
    case last
    with Cons.prems have f: "flattenedBranch (objs s a) \<noteq> None" by auto
    show ?thesis
      apply (subst find_master.simps)
      using f last apply (simp add: bump_Nil)
      done
  next
    case (step p)
    let ?s1 = "upd s p (\<lambda>e. e\<lparr>branchSize := branchSize e + delta\<rparr>)"
    have c1: "climb ?s1 p = Some xs" using step(4) by (rule climb_upd_size)
    have xs: "xs \<noteq> []" using step(4) climb_nonempty by blast
    have f1: "flattenedBranch (objs ?s1 (last xs)) \<noteq> None"
      using Cons.prems(2) xs by (auto simp: upd_def)
    have hd: "hd xs = p" using step(4) by (rule climb_hd)
    have pn: "p \<notin> set (tl xs)" using climb_distinct[OF step(4)] hd xs by (cases xs) auto
    have xs_eq: "p # tl xs = xs" using hd xs by (cases xs) auto
    have e: "find_master s a delta = find_master ?s1 p delta"
      apply (subst find_master.simps)
      using step apply simp
      done
    show ?thesis
      unfolding e Cons.IH[OF c1 f1]
      using xs by (simp add: bump_Cons[OF pn] xs_eq)
  qed
qed

lemma climb_frame_on:
  assumes "climb s a = Some as"
      and "\<And>x. x \<in> set as \<Longrightarrow> (flattenedBranch (objs s' x) = None) = (flattenedBranch (objs s x) = None)"
      and "\<And>x. x \<in> set as \<Longrightarrow> parent (objs s' x) = parent (objs s x)"
  shows "climb s' a = Some as"
  using assms
proof (induction as arbitrary: a)
  case Nil
  then show ?case by (auto elim: climb_NilE)
next
  case (Cons x xs)
  from Cons.prems(1) show ?case
  proof (cases rule: climb_ConsE)
    case last
    then show ?thesis
      using Cons.prems(2)[of a] Cons.prems(3)[of a]
      by (metis climb_owner climb_top list.set_intros(1))
  next
    case (step p)
    have "climb s' p = Some xs"
      using Cons.IH[OF step(4)] Cons.prems(2,3) by simp
    then show ?thesis using step Cons.prems(2)[of a] Cons.prems(3)[of a]
      by (simp add: climb_step)
  qed
qed

lemma objs_setFlattenedBranch:
  "objs (setFlattenedBranch s i l) j =
     (if j = i then (objs s i)\<lparr>flattenedBranch := l\<rparr> else objs s j)"
  by (simp add: setFlattenedBranch_def upd_def dispatch_def Let_def)

lemma objs_dispatch: "objs (dispatch s e) = objs s"
  by (simp add: dispatch_def)

lemma objs_bump:
  "objs (bump s as delta) j =
     (if j \<in> set as then (objs s j)\<lparr>branchSize := branchSize (objs s j) + delta\<rparr> else objs s j)"
  by (simp add: bump_def bumped_def)

lemma rootId_frame:
  "rootId (setFlattenedBranch s i l) = rootId s" "rootId (dispatch s e) = rootId s"
  "rootId (bump s as delta) = rootId s" "rootId (upd s i f) = rootId s"
  by (simp_all add: setFlattenedBranch_def upd_def dispatch_def bump_def Let_def)

lemmas heap_simps = objs_setFlattenedBranch objs_dispatch objs_bump objs_upd rootId_frame

lemma slice_length_le: "0 \<le> b \<Longrightarrow> int (length (slice xs b e)) + b \<le> int (length xs) \<or> slice xs b e = []"
  by (auto simp: slice_def Let_def min_def)

lemma shrink_splice_ok:
  assumes "i = indexOf fo d + 1"
  shows "\<exists>arr. spliceTypedArray fo i (int (length (slice fo i e))) None = Inr arr"
proof -
  have i0: "0 \<le> i" using assms indexOf_ge[of fo d] by simp
  have il: "i \<le> int (length fo)" using assms indexOf_lt[of fo d] by simp
  have "i + int (length (slice fo i e)) \<le> int (length fo)"
    using slice_length_le[OF i0, of fo e] il by auto
  from spliceTypedArray_ok[OF i0 _ this] show ?thesis by simp
qed

lemma shrinkBranch_self:
  "parent (objs s d) = Some p \<Longrightarrow> shrinkBranch s d d = shrinkBranch s p d"
  by (subst shrinkBranch.simps) simp

lemma expandBranch_self:
  "parent (objs s d) = Some p \<Longrightarrow> expandBranch s d d = expandBranch s p d"
  by (subst expandBranch.simps) simp

lemma setCollapsed_result:
  assumes "d \<noteq> rootId s" "isExpanded (objs s d)" "children (objs s d) \<noteq> None"
    and "parent (objs s d) = Some p" "climb s p = Some as" "d \<notin> set as"
    and "flattenedBranch (objs s (last as)) = Some fo"
    and "flattenedBranch (objs s (rootId s)) \<noteq> None"
  shows "setCollapsed s d = Some (Inr (collapsed_state s d as fo))"
proof -
  define s0 where "s0 = notifyWillChangeExpansionState s d False"
  have o0: "objs s0 = objs s" and r0: "rootId s0 = rootId s"
    by (simp_all add: s0_def notifyWillChangeExpansionState_def dispatch_def)
  have c0: "climb s0 p = Some as"
    by (rule climb_frame_on[OF assms(5)]) (simp_all add: o0)
  have fo: "flattenedBranch (objs s0 (last as)) = Some fo"
    using assms(7) by (simp add: o0)
  define i where "i = indexOf fo d + 1"
  define taken where "taken = slice fo i (i + branchSize (objs s0 d))"
  define arr where "arr = take (nat i) fo @ drop (nat i + length taken) fo"
  have i0: "0 \<le> i" using i_def indexOf_ge[of fo d] by simp
  have il: "i \<le> int (length fo)" using i_def indexOf_lt[of fo d] by simp
  have "i + int (length taken) \<le> int (length fo)"
    using slice_length_le[OF i0, of fo "i + branchSize (objs s0 d)"] il by (auto simp: taken_def)
  from spliceTypedArray_ok[OF i0 _ this, of None]
  have arr: "spliceTypedArray fo i (int (length taken)) None = Inr arr"
    using i0 by (simp add: arr_def nat_add_distrib)
  define sR where "sR = setFlattenedBranch
                       (setFlattenedBranch (bump s0 as (- branchSize (objs s0 d))) d (Some taken))
                       (last as) (Some arr)"
  have p0: "parent (objs s0 d) = Some p" using assms(4) by (simp add: o0)
  have sh: "shrinkBranch s0 d d = Some (Inr sR)"
    unfolding shrinkBranch_self[OF p0]
      shrinkBranch_climb[OF c0 assms(6) fo, unfolded Let_def, folded i_def, folded taken_def]
    by (simp add: arr sR_def)
  define sF where "sF = upd sR d (\<lambda>e. e\<lparr>isExpanded := False\<rparr>)"
  have rF: "rootId sF = rootId s" by (simp add: sF_def sR_def heap_simps r0)
  have rootF: "flattenedBranch (objs sF (rootId s)) \<noteq> None"
    using assms(1,8) by (simp add: sF_def sR_def heap_simps r0 o0)
  then obtain fr where fr: "flattenedBranch (objs sF (rootId s)) = Some fr" by blast
  then have v: "isItemVisibleAtSurface sF d = Inr (indexOf fr d > - 1)"
    using assms(1) by (simp add: isItemVisibleAtSurface_def rF)
  have res: "setCollapsed s d = Some (Inr (dispatch sF (DidChangeExpansionState d False (indexOf fr d > - 1))))"
    using assms(1,2,3,4) sh v
    by (simp add: setCollapsed_def Directory_setCollapsed_def bindR_def s0_def[symmetric]
        sF_def[symmetric] notifyDidChangeExpansionState_def)
  have "collapsed_state s d as fo = dispatch sF (DidChangeExpansionState d False (indexOf fr d > - 1))"
    unfolding collapsed_state_def Let_def
    using fr
    by (simp add: sF_def sR_def s0_def notifyWillChangeExpansionState_def arr_def taken_def i_def
        objs_dispatch)
  then show ?thesis using res by simp
qed

lemma Directory_setExpanded_already:
  "isExpanded (objs s x) \<Longrightarrow> Directory_setExpanded s x ev = Some (Inr s)"
  by (subst Directory_setExpanded.simps) simp

lemma setExpanded_result:
  assumes "d \<noteq> rootId s" "\<not> isExpanded (objs s d)" "children (objs s d) \<noteq> None"
    and "parent (objs s d) = Some p" "ev \<longrightarrow> p = rootId s \<or> isExpanded (objs s p)"
    and "climb s p = Some as" "d \<notin> set as"
    and "flattenedBranch (objs s (last as)) = Some fo"
    and "flattenedBranch (objs s (rootId s)) \<noteq> None"
  shows "setExpanded s d ev = Some (Inr (expanded_state s d as fo))"
proof -
  define s1 where "s1 = upd s d (isExpanded_update (\<lambda>_. True))"
  define s0 where "s0 = notifyWillChangeExpansionState s1 d True"
  have o0: "objs s0 = objs s1" and r0: "rootId s0 = rootId s" and r1: "rootId s1 = rootId s"
    by (simp_all add: s0_def s1_def notifyWillChangeExpansionState_def dispatch_def upd_def)
  have c0: "climb s0 p = Some as"
    by (rule climb_frame_on[OF assms(6)]) (simp_all add: o0 s1_def heap_simps)
  have ld: "last as \<noteq> d" using assms(7) last_in_set[OF climb_nonempty[OF assms(6)]] by auto
  have fo: "flattenedBranch (objs s0 (last as)) = Some fo"
    using assms(8) ld by (simp add: o0 s1_def heap_simps)
  define i where "i = indexOf fo d + 1"
  define arr where "arr = take (nat i) fo
                  @ (case flattenedBranch (objs s d) of Some fd \<Rightarrow> fd | None \<Rightarrow> [])
                  @ drop (nat i) fo"
  have i0: "0 \<le> i" using i_def indexOf_ge[of fo d] by simp
  have il: "i + 0 \<le> int (length fo)" using i_def indexOf_lt[of fo d] by simp
  have fd0: "flattenedBranch (objs s0 d) = flattenedBranch (objs s d)"
    by (simp add: o0 s1_def heap_simps)
  have b0: "branchSize (objs s0 d) = branchSize (objs s d)"
    by (simp add: o0 s1_def heap_simps)
  from spliceTypedArray_ok[OF i0 _ il, of "flattenedBranch (objs s d)"]
  have arr: "spliceTypedArray fo i 0 (flattenedBranch (objs s0 d)) = Inr arr"
    by (simp add: arr_def fd0)
  define sR where "sR = setFlattenedBranch
                       (setFlattenedBranch (bump s0 as (branchSize (objs s d))) (last as) (Some arr))
                       d None"
  have p0: "parent (objs s0 d) = Some p" using assms(4) by (simp add: o0 s1_def heap_simps)
  have ex: "expandBranch s0 d d = Some (Inr sR)"
    unfolding expandBranch_self[OF p0]
      expandBranch_climb[OF c0 assms(7) fo, folded i_def]
    by (simp add: arr sR_def b0)
  have rR: "rootId sR = rootId s" by (simp add: sR_def heap_simps r0)
  have rootR: "flattenedBranch (objs sR (rootId s)) \<noteq> None"
    using assms(1,9) by (simp add: sR_def s1_def heap_simps r0 o0)
  then obtain fr where fr: "flattenedBranch (objs sR (rootId s)) = Some fr" by blast
  then have v: "isItemVisibleAtSurface sR d = Inr (indexOf fr d > - 1)"
    using assms(1) by (simp add: isItemVisibleAtSurface_def rR)
  have par: "(case parent (objs s1 d) of None \<Rightarrow> Some (Inr s1)
              | Some p \<Rightarrow> if ev \<and> p \<noteq> rootId s1 then Directory_setExpanded s1 p True
                          else Some (Inr s1)) = Some (Inr s1)"
    using assms(4,5) by (auto simp: s1_def heap_simps Directory_setExpanded_already)
  have c1: "children (objs s1 d) \<noteq> None" and e1: "isExpanded (objs s1 d)"
    using assms(3) by (simp_all add: s1_def heap_simps)
  have res: "setExpanded s d ev = Some (Inr (dispatch sR (DidChangeExpansionState d True (indexOf fr d > - 1))))"
    unfolding setExpanded_def using assms(1)
    apply simp
    apply (subst Directory_setExpanded.simps)
    using assms(2,3) ex v
    apply (simp add: Let_def s1_def[symmetric] par s0_def[symmetric] notifyDidChangeExpansionState_def c1 e1)
    done
  have "expanded_state s d as fo = dispatch sR (DidChangeExpansionState d True (indexOf fr d > - 1))"
    unfolding expanded_state_def Let_def
    using fr
    by (simp add: sR_def s0_def s1_def notifyWillChangeExpansionState_def arr_def i_def
        objs_dispatch)
  then show ?thesis using res by simp
qed

lemma other_fields_frame:
  "idToFileEntry (setFlattenedBranch s i l) = idToFileEntry s"
  "nextId (setFlattenedBranch s i l) = nextId s"
  "rootPath (setFlattenedBranch s i l) = rootPath s"
  "pathfx_of (setFlattenedBranch s i l) = pathfx_of s"
  "getItems (setFlattenedBranch s i l) = getItems s"
  "hostWatch (setFlattenedBranch s i l) = hostWatch s"
  "sortComparator (setFlattenedBranch s i l) = sortComparator s"
  "devChecks (setFlattenedBranch s i l) = devChecks s"
  "fswatchers (setFlattenedBranch s i l) = fswatchers s"
  "changeEventDispatchQueue (setFlattenedBranch s i l) = changeEventDispatchQueue s"
  "idToFileEntry (dispatch s e) = idToFileEntry s"
  "nextId (dispatch s e) = nextId s"
  "rootPath (dispatch s e) = rootPath s"
  "pathfx_of (dispatch s e) = pathfx_of s"
  "getItems (dispatch s e) = getItems s"
  "hostWatch (dispatch s e) = hostWatch s"
  "sortComparator (dispatch s e) = sortComparator s"
  "devChecks (dispatch s e) = devChecks s"
  "fswatchers (dispatch s e) = fswatchers s"
  "changeEventDispatchQueue (dispatch s e) = changeEventDispatchQueue s"
  "idToFileEntry (bump s as delta) = idToFileEntry s"
  "nextId (bump s as delta) = nextId s"
  "rootPath (bump s as delta) = rootPath s"
  "pathfx_of (bump s as delta) = pathfx_of s"
  "getItems (bump s as delta) = getItems s"
  "hostWatch (bump s as delta) = hostWatch s"
  "sortComparator (bump s as delta) = sortComparator s"
  "devChecks (bump s as delta) = devChecks s"
  "fswatchers (bump s as delta) = fswatchers s"
  "changeEventDispatchQueue (bump s as delta) = changeEventDispatchQueue s"
  "events (bump s as delta) = events s"
  "idToFileEntry (upd s i f) = idToFileEntry s"
  "nextId (upd s i f) = nextId s"
  "rootPath (upd s i f) = rootPath s"
  "pathfx_of (upd s i f) = pathfx_of s"
  "getItems (upd s i f) = getItems s"
  "hostWatch (upd s i f) = hostWatch s"
  "sortComparator (upd s i f) = sortComparator s"
  "devChecks (upd s i f) = devChecks s"
  "fswatchers (upd s i f) = fswatchers s"
  "changeEventDispatchQueue (upd s i f) = changeEventDispatchQueue s"
  "events (upd s i f) = events s"
  by (simp_all add: setFlattenedBranch_def upd_def dispatch_def bump_def Let_def)

lemma rootId_states:
  "rootId (expanded_state s d as fo) = rootId s" "rootId (collapsed_state s d as fo) = rootId s"
  by (simp_all add: expanded_state_def collapsed_state_def Let_def heap_simps)

lemma roundtrip_arrays:
  fixes fo fd :: "nat list"
  assumes "d \<in> set fo"
    and i: "i = indexOf fo d + 1"
    and arr: "arr = take (nat i) fo @ fd @ drop (nat i) fo"
    and j: "j = indexOf arr d + 1"
    and taken: "taken = slice arr j (j + int (length fd))"
  shows "taken = fd" and "take (nat j) arr @ drop (nat j + length taken) arr = fo"
proof -
  from assms(1) obtain pre post where fo: "fo = pre @ d # post" and dn: "d \<notin> set pre"
    by (meson split_list_first)
  have i': "nat i = Suc (length pre)" by (simp add: i fo indexOf_first[OF dn])
  have arr': "arr = pre @ d # (fd @ post)" by (simp add: arr i' fo)
  have j': "j = int (Suc (length pre))" by (simp add: j arr' indexOf_first[OF dn])
  have "taken = slice arr (int (Suc (length pre))) (int (Suc (length pre) + length fd))"
    by (simp add: taken j' algebra_simps)
  also have "\<dots> = fd" unfolding slice_nat by (simp add: arr')
  finally show t: "taken = fd" .
  have nj: "nat j = Suc (length pre)" by (simp add: j')
  show "take (nat j) arr @ drop (nat j + length taken) arr = fo"
    by (simp add: t nj arr' fo)
qed

lemma entry_restore:
  "\<not> isExpanded e \<Longrightarrow> flattenedBranch e = Some fd \<Longrightarrow>
   e\<lparr>isExpanded := True, flattenedBranch := None, flattenedBranch := Some fd, isExpanded := False\<rparr> = e"
  by (cases e) simp

lemma entry_same:
  "b = branchSize e \<Longrightarrow> e\<lparr>branchSize := b\<rparr> = e"
  "b = branchSize e \<Longrightarrow> flattenedBranch e = Some f \<Longrightarrow>
     e\<lparr>branchSize := b, flattenedBranch := Some f\<rparr> = e"
  "\<not> isExpanded e \<Longrightarrow> flattenedBranch e = Some f \<Longrightarrow>
     e\<lparr>flattenedBranch := Some f, isExpanded := False\<rparr> = e"
  "flattenedBranch e = Some f \<Longrightarrow> e\<lparr>flattenedBranch := Some f\<rparr> = e"
  by (cases e; simp)+

subsection \<open>Validation of raw items\<close>







subsection \<open>The steps of \<open>setExpanded\<close>\<close>

lemma bind_Inr_run_Nil:
  "Option.bind m (\<lambda>y. Option.bind (case y of Inl e \<Rightarrow> Some (Inl e) | Inr x \<Rightarrow> Some (Inr (x, [])))
       (case_sum (\<lambda>e. Some (Inl e)) (\<lambda>c. Directory_setExpanded_run (fst c) (snd c)))) = m"
  by (cases m) (auto simp: Directory_setExpanded_run.simps split: sum.splits)

lemma setExpanded_awaited_loaded:
  assumes "children (objs s d) \<noteq> None" "parent (objs s d) = Some p"
    and "ev \<longrightarrow> p = rootId s \<or> isExpanded (objs s p)"
  shows "setExpanded_awaited s d ev = setExpanded s d ev"
proof (cases "d = rootId s \<or> isExpanded (objs s d)")
  case True
  then show ?thesis
    by (auto simp: setExpanded_awaited_def setExpanded_def Directory_setExpanded_awaited_def
        Directory_setExpanded_call.simps Directory_setExpanded.simps
        Directory_setExpanded_run.simps bindR_def)
next
  case False
  define s1 where "s1 = upd s d (isExpanded_update (\<lambda>_. True))"
  obtain ks where ks: "children (objs s d) = Some ks" using assms(1) by blast
  have k: "children (objs s1 d) = Some ks" "parent (objs s1 d) = Some p" "rootId s1 = rootId s"
    "isExpanded (objs s1 d)"
    using assms ks by (auto simp: s1_def upd_def)
  have k5: "isExpanded (objs s p) \<Longrightarrow> isExpanded (objs s1 p)"
    by (auto simp: s1_def upd_def)
  have m: "setExpanded_merge s1 d =
      Option.bind (expandBranch (notifyWillChangeExpansionState s1 d True) d d)
        (\<lambda>r. case r of Inl e \<Rightarrow> Some (Inl e)
            | Inr s4 \<Rightarrow> Some (notifyDidChangeExpansionState s4 d True))"
    using k(4) by (simp add: setExpanded_merge_def bindR_def)
  have nd: "d \<noteq> rootId s" "\<not> isExpanded (objs s d)" using False by auto
  show ?thesis
  proof (cases "ev \<and> p \<noteq> rootId s")
    case True
    then have pe: "isExpanded (objs s1 p)" using assms(3) k5 by auto
    have c: "Directory_setExpanded_call s1 p True = Some (Inr (s1, []))"
      using pe by (simp add: Directory_setExpanded_call.simps)
    have a: "Directory_setExpanded s1 p True = Some (Inr s1)"
      using pe by (simp add: Directory_setExpanded.simps)
    have C: "Directory_setExpanded_call s d ev = Some (Inr (s1, [AwaitParent d]))"
      by (subst Directory_setExpanded_call.simps)
         (simp add: nd s1_def[symmetric] k True c)
    have r: "Directory_setExpanded_run s1 [AwaitParent d] = setExpanded_merge s1 d"
      by (subst Directory_setExpanded_run.simps)
         (cases "setExpanded_merge s1 d";
          auto simp: Directory_setExpanded_resume_def bindR_def Directory_setExpanded_run.simps
               split: sum.splits)
    have L: "setExpanded_awaited s d ev = setExpanded_merge s1 d"
      by (simp add: setExpanded_awaited_def Directory_setExpanded_awaited_def nd C bindR_def r)
    have R: "setExpanded s d ev = setExpanded_merge s1 d"
      by (subst setExpanded_def, subst Directory_setExpanded.simps)
         (simp add: nd s1_def[symmetric] k True a m)
    show ?thesis by (simp add: L R)
  next
    case F2: False
    have C: "Directory_setExpanded_call s d ev =
        Option.bind (setExpanded_merge s1 d)
          (\<lambda>r. case r of Inl e \<Rightarrow> Some (Inl e) | Inr s3 \<Rightarrow> Some (Inr (s3, [])))"
      by (subst Directory_setExpanded_call.simps)
         (use F2 in \<open>auto simp: nd s1_def[symmetric] k\<close>)
    have L: "setExpanded_awaited s d ev = setExpanded_merge s1 d"
      by (simp add: setExpanded_awaited_def Directory_setExpanded_awaited_def nd C bindR_def
          bind_Inr_run_Nil)
    have R: "setExpanded s d ev = setExpanded_merge s1 d"
      by (subst setExpanded_def, subst Directory_setExpanded.simps)
         (use F2 in \<open>auto simp: nd s1_def[symmetric] k m\<close>)
    show ?thesis by (simp add: L R)
  qed
qed

section \<open>The example of the specification\<close>

lemma u32_small: "n < 4294967296 \<Longrightarrow> u32 n = n"
  by (simp add: u32_def)

lemmas eval_defs =
  Root_new_def Root_new_pending_def Root_fields_def new_entry_def Directory_setExpanded.simps hardReloadChildren_def
  hardReload_begin_def hardReload_finish_def create_children.simps
  path.simps bindR_def liftE_def unix_def checkRawFile_def sort_children_def sort_by_def
  defaultSortComparator_def u32_def upd_def setFlattenedBranch_def dispatch_def
  expandBranch.simps shrinkBranch.simps supervisedWatch_def callTerminator_def
  notifyWillChangeExpansionState_def notifyDidChangeExpansionState_def
  isItemVisibleAtSurface_def setExpanded_def setCollapsed_def Directory_setCollapsed_def
  spliceTypedArray_def typed_set_def slice_def items_length_def
  getFileEntryAtIndex_def getFileEntryById_def returns_def rows_def row_name_def
  file_item_def dir_item_def ensureLoaded_def climb.simps host_ab_def host_deep_def
  host_malformed_def expanded_def Let_def

lemmas eval_steps =
  setExpanded_merge_def Directory_setExpanded_call.simps Directory_setExpanded_rest_def
  Directory_setExpanded_resume_def Directory_setExpanded_run.simps
  Directory_setExpanded_awaited_def setExpanded_call_def setExpanded_awaited_def



section \<open>Calls that change nothing\<close>

lemma index_of_None_iff: "index_of xs x = None \<longleftrightarrow> x \<notin> set xs"
  by (induction xs) auto

text \<open>
  C8.  \<open>setExpanded\<close> on a directory that is already expanded returns the state it was
  given (no field and no notification differs), whatever \<open>ensureVisible\<close> is; and
  \<open>insertItem\<close> of an item that is already among the children of its parent returns
  the state it was given.
\<close>

theorem repeated_call_changes_nothing:
  "(expanded s d \<longrightarrow> setExpanded s d ensureVisible = Some (Inr s)) \<and>
   (parent (objs s item) = Some d \<and> children (objs s d) = Some cs \<and> item \<in> set cs
      \<longrightarrow> insertItem s d item = Some (Inr s))"
proof (intro conjI impI)
  assume "expanded s d"
  then show "setExpanded s d ensureVisible = Some (Inr s)"
    by (simp add: setExpanded_def expanded_def Directory_setExpanded.simps split: if_splits)
next
  assume "parent (objs s item) = Some d \<and> children (objs s d) = Some cs \<and> item \<in> set cs"
  then show "insertItem s d item = Some (Inr s)"
    by (simp add: insertItem_def insertItem_here_def index_of_None_iff)
qed

theorem repeated_call_changes_nothing_witness:
  "returns (Root_new unix host_ab True None True ''/root'' 0 Map.empty)
     (\<lambda>s. returns (setExpanded s 2 True)
        (\<lambda>s'. expanded s' 2 \<and> setExpanded s' 2 False = Some (Inr s')
            \<and> parent (objs s' 3) = Some 2 \<and> children (objs s' 2) = Some [3] \<and> 3 \<in> set [3::nat]
            \<and> insertItem s' 2 3 = Some (Inr s')))"
proof -
  have "returns (Root_new unix host_ab True None True ''/root'' 0 Map.empty)
     (\<lambda>s. returns (setExpanded s 2 True)
        (\<lambda>s'. expanded s' 2
            \<and> parent (objs s' 3) = Some 2 \<and> children (objs s' 2) = Some [3] \<and> 3 \<in> set [3::nat]))"
    by (simp add: eval_defs host_ab_def expanded_def)
  then show ?thesis
    using repeated_call_changes_nothing [where d = 2 and item = 3 and cs = "[3]"]
    by (auto simp: returns_def split: option.splits sum.splits)
qed

section \<open>Reading a row\<close>

text \<open>
  C10, as amended.  Once the root owns its array (its first load has completed),
  \<open>getFileEntryAtIndex\<close> returns \<open>undefined\<close>, and does not throw, for every integer
  index that is negative or not below the length of that array.  The root's \<open>branchSize\<close>
  is not read: the range is that of the flat sequence itself.
\<close>

theorem getFileEntryAtIndex_out_of_range:
  assumes "flattenedBranch (objs s (rootId s)) = Some fb"
    and "index < 0 \<or> int (length fb) \<le> index"
  shows "getFileEntryAtIndex s index = Inr None"
  using assms by (auto simp: getFileEntryAtIndex_def getFileEntryById_def)

theorem getFileEntryAtIndex_out_of_range_witness:
  "returns (Root_new unix host_ab True None True ''/root'' 0 Map.empty)
     (\<lambda>s. flattenedBranch (objs s (rootId s)) = Some [2, 1]
         \<and> getFileEntryAtIndex s (- 1) = Inr None \<and> getFileEntryAtIndex s 2 = Inr None)"
proof -
  have "returns (Root_new unix host_ab True None True ''/root'' 0 Map.empty)
     (\<lambda>s. flattenedBranch (objs s (rootId s)) = Some [2, 1])"
    by (simp add: eval_defs host_ab_def)
  then show ?thesis
    using getFileEntryAtIndex_out_of_range [where fb = "[2, 1]" and index = "- 1"]
      getFileEntryAtIndex_out_of_range [where fb = "[2, 1]" and index = 2]
    by (auto simp: returns_def split: option.splits sum.splits)
qed

text \<open>
  The claim as stated fails before the first load has completed: the root a caller gets
  from the constructor has \<open>branchSize\<close> 0 and no array yet, and reading any row of it
  throws a \<open>TypeError\<close>.
\<close>

theorem getFileEntryAtIndex_throws_before_load:
  "returns (Root_new_pending unix host_ab True None True ''/root'' 0 Map.empty)
     (\<lambda>s. branchSize (objs s (rootId s)) = 0 \<and> getFileEntryAtIndex s 0 = Inl TypeError
         \<and> getFileEntryAtIndex s (- 1) = Inl TypeError)"
  by (simp add: eval_defs host_ab_def)


section \<open>Collapsing\<close>

text \<open>
  C4, as amended.  Let \<open>d\<close> be an expanded, loaded directory other than the root, and
  let the walk that starts at its parent climb through the directories \<open>as\<close>, the last of
  which owns an array (the owning ancestor; the others are the ancestors strictly between
  \<open>d\<close> and the owner).  Then \<open>setCollapsed\<close> returns, and in the state it returns the
  \<open>branchSize\<close> of every directory of \<open>as\<close>, the owning ancestor included, is what it
  was minus the \<open>branchSize\<close> of \<open>d\<close>; no other \<open>branchSize\<close> changes.
\<close>

theorem setCollapsed_sizes:
  assumes "d \<noteq> rootId s" "isExpanded (objs s d)" "children (objs s d) \<noteq> None"
    and "parent (objs s d) = Some p" "climb s p = Some as" "d \<notin> set as"
    and "flattenedBranch (objs s (last as)) \<noteq> None"
    and "flattenedBranch (objs s (rootId s)) \<noteq> None"
  shows "returns (setCollapsed s d)
           (\<lambda>s'. \<forall>x. branchSize (objs s' x) =
                    (if x \<in> set as then branchSize (objs s x) - branchSize (objs s d)
                     else branchSize (objs s x)))"
proof -
  from assms(7) obtain fo where fo: "flattenedBranch (objs s (last as)) = Some fo" by blast
  have "branchSize (objs (collapsed_state s d as fo) x) =
          (if x \<in> set as then branchSize (objs s x) - branchSize (objs s d)
           else branchSize (objs s x))" for x
    using assms(6) last_in_set[OF climb_nonempty[OF assms(5)]]
    by (auto simp: collapsed_state_def Let_def heap_simps)
  then show ?thesis
    by (simp add: setCollapsed_result[OF assms(1-6) fo assms(8)] returns_def)
qed

theorem setCollapsed_sizes_witness:
  "returns (Root_new unix host_deep True None True ''/root'' 0 Map.empty)
     (\<lambda>s0. returns (setExpanded s0 1 True)
        (\<lambda>s1. returns (setExpanded s1 2 True)
           (\<lambda>s. 2 \<noteq> rootId s \<and> isExpanded (objs s 2) \<and> children (objs s 2) \<noteq> None
               \<and> parent (objs s 2) = Some 1 \<and> climb s 1 = Some [1, 0] \<and> 2 \<notin> set [1, 0::nat]
               \<and> flattenedBranch (objs s (last [1, 0])) \<noteq> None
               \<and> flattenedBranch (objs s (rootId s)) \<noteq> None
               \<and> returns (setCollapsed s 2)
                     (\<lambda>s'. \<forall>x. branchSize (objs s' x) =
                        (if x \<in> set [1, 0] then branchSize (objs s x) - branchSize (objs s 2)
                         else branchSize (objs s x))))))"
proof -
  have "returns (Root_new unix host_deep True None True ''/root'' 0 Map.empty)
     (\<lambda>s0. returns (setExpanded s0 1 True)
        (\<lambda>s1. returns (setExpanded s1 2 True)
           (\<lambda>s. 2 \<noteq> rootId s \<and> isExpanded (objs s 2) \<and> children (objs s 2) \<noteq> None
               \<and> parent (objs s 2) = Some 1 \<and> climb s 1 = Some [1, 0] \<and> 2 \<notin> set [1, 0::nat]
               \<and> flattenedBranch (objs s (last [1, 0])) \<noteq> None
               \<and> flattenedBranch (objs s (rootId s)) \<noteq> None)))"
    by (simp add: eval_defs)
  then show ?thesis
  proof (rule returns_mono, elim returns_mono)
    fix s0 s1 s
    assume h: "2 \<noteq> rootId s \<and> isExpanded (objs s 2) \<and> children (objs s 2) \<noteq> None
               \<and> parent (objs s 2) = Some 1 \<and> climb s 1 = Some [1, 0] \<and> 2 \<notin> set [1, 0::nat]
               \<and> flattenedBranch (objs s (last [1, 0])) \<noteq> None
               \<and> flattenedBranch (objs s (rootId s)) \<noteq> None"
    with setCollapsed_sizes [of 2 s 1 "[1, 0]"]
    show "2 \<noteq> rootId s \<and> isExpanded (objs s 2) \<and> children (objs s 2) \<noteq> None
               \<and> parent (objs s 2) = Some 1 \<and> climb s 1 = Some [1, 0] \<and> 2 \<notin> set [1, 0::nat]
               \<and> flattenedBranch (objs s (last [1, 0])) \<noteq> None
               \<and> flattenedBranch (objs s (rootId s)) \<noteq> None
               \<and> returns (setCollapsed s 2)
                     (\<lambda>s'. \<forall>x. branchSize (objs s' x) =
                        (if x \<in> set [1, 0] then branchSize (objs s x) - branchSize (objs s 2)
                         else branchSize (objs s x)))"
      by blast
  qed
qed

text \<open>
  The claim as stated fails at the owning ancestor.  With \<open>a\<close> and \<open>d\<close> expanded below
  the root, the walk of collapsing \<open>d\<close> climbs through \<open>a\<close> to the root, which owns the
  array; the root's \<open>branchSize\<close> is 3 before and 2 after.
\<close>

theorem setCollapsed_shrinks_owner:
  "returns (Root_new unix host_deep True None True ''/root'' 0 Map.empty)
     (\<lambda>s0. returns (setExpanded s0 1 True)
        (\<lambda>s1. returns (setExpanded s1 2 True)
           (\<lambda>s. climb s 1 = Some [1, 0] \<and> flattenedBranch (objs s 1) = None
               \<and> flattenedBranch (objs s 0) = Some [1, 2, 3]
               \<and> branchSize (objs s 2) = 1 \<and> branchSize (objs s 0) = 3
               \<and> returns (setCollapsed s 2) (\<lambda>s'. branchSize (objs s' 0) = 2))))"
  by (simp add: eval_defs)

section \<open>Expanding and collapsing again\<close>

text \<open>
  The round trip for the call of \<open>setExpanded\<close> taken as one step.
\<close>

lemma expand_then_collapse_atomic:
  assumes "d \<noteq> rootId s" "\<not> isExpanded (objs s d)" "children (objs s d) \<noteq> None"
    and "parent (objs s d) = Some p" "ev \<longrightarrow> p = rootId s \<or> isExpanded (objs s p)"
    and "climb s p = Some as" "d \<notin> set as"
    and "flattenedBranch (objs s (last as)) = Some fo"
    and "flattenedBranch (objs s (rootId s)) \<noteq> None"
    and "flattenedBranch (objs s d) = Some fd" "branchSize (objs s d) = int (length fd)"
    and "d \<in> set fo"
  shows "returns (setExpanded s d ev)
           (\<lambda>s1. returns (setCollapsed s1 d) (\<lambda>s2. s2\<lparr>events := events s\<rparr> = s))"
proof -
  define s1 where "s1 = expanded_state s d as fo"
  define i where "i = indexOf fo d + 1"
  define arr where "arr = take (nat i) fo @ fd @ drop (nat i) fo"
  have E: "setExpanded s d ev = Some (Inr s1)"
    unfolding s1_def by (rule setExpanded_result[OF assms(1-9)])
  have ne: "as \<noteq> []" by (rule climb_nonempty[OF assms(6)])
  have ld: "last as \<noteq> d" using assms(7) last_in_set[OF ne] by auto
  have o1: "objs s1 x =
      (if x = d then (objs s d)\<lparr>isExpanded := True, flattenedBranch := None\<rparr>
       else if x = last as
         then (objs s x)\<lparr>branchSize := branchSize (objs s x) + int (length fd),
                         flattenedBranch := Some arr\<rparr>
       else if x \<in> set as
         then (objs s x)\<lparr>branchSize := branchSize (objs s x) + int (length fd)\<rparr>
       else objs s x)" for x
    using assms(7,10,11) ld last_in_set[OF ne]
    by (auto simp: s1_def expanded_state_def Let_def heap_simps arr_def i_def)
  have r1: "rootId s1 = rootId s" by (simp add: s1_def rootId_states)
  have c1: "climb s1 p = Some as"
    by (rule climb_frame_on[OF assms(6)]) (use assms(7,8) in \<open>auto simp: o1\<close>)
  have f1: "flattenedBranch (objs s1 (last as)) = Some arr" using ld by (simp add: o1)
  have root1: "flattenedBranch (objs s1 (rootId s1)) \<noteq> None"
    using assms(1,9) by (simp add: o1 r1)
  have C: "setCollapsed s1 d = Some (Inr (collapsed_state s1 d as arr))"
    by (rule setCollapsed_result[OF _ _ _ _ c1 assms(7) f1 root1])
       (use assms(1,3,4) in \<open>simp_all add: o1 r1\<close>)
  define j where "j = indexOf arr d + 1"
  define taken where "taken = slice arr j (j + int (length fd))"
  note rt0 = roundtrip_arrays[OF assms(12) i_def arr_def j_def taken_def]
  note rt = rt0(1) rt0(2)[unfolded rt0(1)]
  have b1: "branchSize (objs s1 d) = int (length fd)" using assms(11) by (simp add: o1)
  have o2: "objs (collapsed_state s1 d as arr) x = objs s x" for x
    using assms(2,7,8,10,11) ld last_in_set[OF ne]
    by (auto simp: collapsed_state_def Let_def heap_simps b1 j_def[symmetric] taken_def[symmetric]
        rt o1 entry_restore entry_same)
  have "(collapsed_state s1 d as arr)\<lparr>events := events s\<rparr> = s"
    apply (rule state.equality)
    apply (simp_all add: fun_eq_iff o2)
    apply (simp_all add: collapsed_state_def s1_def expanded_state_def Let_def other_fields_frame heap_simps)
    done
  then show ?thesis by (simp add: E C returns_def)
qed

text \<open>
  C3, as amended.  Let \<open>d\<close> be a loaded, collapsed directory other than the root that
  owns an array \<open>fd\<close> of exactly \<open>branchSize\<close> entries, let the walk from its parent
  climb through \<open>as\<close> to an owner whose array \<open>fo\<close> holds the id of \<open>d\<close>, and let
  \<open>setExpanded\<close> have no ancestor to expand (it is called with \<open>ensureVisible\<close> false,
  or the parent of \<open>d\<close> is the root or already expanded).  Then a call of
  \<open>setExpanded\<close> that is awaited, nothing else running while it is suspended, followed by
  \<open>setCollapsed\<close> returns a state that differs from the first one in nothing but the
  notifications dispatched: every \<open>branchSize\<close> and every array is as before.
\<close>

theorem expand_then_collapse_restores:
  assumes "d \<noteq> rootId s" "\<not> isExpanded (objs s d)" "children (objs s d) \<noteq> None"
    and "parent (objs s d) = Some p" "ev \<longrightarrow> p = rootId s \<or> isExpanded (objs s p)"
    and "climb s p = Some as" "d \<notin> set as"
    and "flattenedBranch (objs s (last as)) = Some fo"
    and "flattenedBranch (objs s (rootId s)) \<noteq> None"
    and "flattenedBranch (objs s d) = Some fd" "branchSize (objs s d) = int (length fd)"
    and "d \<in> set fo"
  shows "returns (setExpanded_awaited s d ev)
           (\<lambda>s1. returns (setCollapsed s1 d) (\<lambda>s2. s2\<lparr>events := events s\<rparr> = s))"
proof -
  have "setExpanded_awaited s d ev = setExpanded s d ev"
    by (rule setExpanded_awaited_loaded[OF assms(3,4,5)])
  then show ?thesis using expand_then_collapse_atomic[OF assms] by simp
qed

theorem expand_then_collapse_restores_witness:
  "returns (Root_new unix host_deep True None True ''/root'' 0 Map.empty)
     (\<lambda>s0. returns (setExpanded s0 1 True)
        (\<lambda>s1. returns (ensureLoaded s1 2)
           (\<lambda>s. 2 \<noteq> rootId s \<and> \<not> isExpanded (objs s 2) \<and> children (objs s 2) \<noteq> None
               \<and> parent (objs s 2) = Some 1 \<and> (1 = rootId s \<or> isExpanded (objs s 1))
               \<and> climb s 1 = Some [1, 0] \<and> 2 \<notin> set [1, 0::nat]
               \<and> flattenedBranch (objs s (last [1, 0])) = Some [1, 2]
               \<and> flattenedBranch (objs s (rootId s)) \<noteq> None
               \<and> flattenedBranch (objs s 2) = Some [3] \<and> branchSize (objs s 2) = int (length [3::nat])
               \<and> 2 \<in> set [1, 2::nat]
               \<and> returns (setExpanded_awaited s 2 True)
                     (\<lambda>sa. returns (setCollapsed sa 2) (\<lambda>sb. sb\<lparr>events := events s\<rparr> = s)))))"
proof -
  have "returns (Root_new unix host_deep True None True ''/root'' 0 Map.empty)
     (\<lambda>s0. returns (setExpanded s0 1 True)
        (\<lambda>s1. returns (ensureLoaded s1 2)
           (\<lambda>s. 2 \<noteq> rootId s \<and> \<not> isExpanded (objs s 2) \<and> children (objs s 2) \<noteq> None
               \<and> parent (objs s 2) = Some 1 \<and> (1 = rootId s \<or> isExpanded (objs s 1))
               \<and> climb s 1 = Some [1, 0] \<and> 2 \<notin> set [1, 0::nat]
               \<and> flattenedBranch (objs s (last [1, 0])) = Some [1, 2]
               \<and> flattenedBranch (objs s (rootId s)) \<noteq> None
               \<and> flattenedBranch (objs s 2) = Some [3] \<and> branchSize (objs s 2) = int (length [3::nat])
               \<and> 2 \<in> set [1, 2::nat])))"
    by (simp add: eval_defs)
  then show ?thesis
  proof (rule returns_mono, elim returns_mono)
    fix s0 s1 s
    assume h: "2 \<noteq> rootId s \<and> \<not> isExpanded (objs s 2) \<and> children (objs s 2) \<noteq> None
               \<and> parent (objs s 2) = Some 1 \<and> (1 = rootId s \<or> isExpanded (objs s 1))
               \<and> climb s 1 = Some [1, 0] \<and> 2 \<notin> set [1, 0::nat]
               \<and> flattenedBranch (objs s (last [1, 0])) = Some [1, 2]
               \<and> flattenedBranch (objs s (rootId s)) \<noteq> None
               \<and> flattenedBranch (objs s 2) = Some [3] \<and> branchSize (objs s 2) = int (length [3::nat])
               \<and> 2 \<in> set [1, 2::nat]"
    with expand_then_collapse_restores [of 2 s 1 True "[1, 0]" "[1, 2]" "[3]"]
    show "2 \<noteq> rootId s \<and> \<not> isExpanded (objs s 2) \<and> children (objs s 2) \<noteq> None
               \<and> parent (objs s 2) = Some 1 \<and> (1 = rootId s \<or> isExpanded (objs s 1))
               \<and> climb s 1 = Some [1, 0] \<and> 2 \<notin> set [1, 0::nat]
               \<and> flattenedBranch (objs s (last [1, 0])) = Some [1, 2]
               \<and> flattenedBranch (objs s (rootId s)) \<noteq> None
               \<and> flattenedBranch (objs s 2) = Some [3] \<and> branchSize (objs s 2) = int (length [3::nat])
               \<and> 2 \<in> set [1, 2::nat]
               \<and> returns (setExpanded_awaited s 2 True)
                     (\<lambda>sa. returns (setCollapsed sa 2) (\<lambda>sb. sb\<lparr>events := events s\<rparr> = s))"
      by blast
  qed
qed

text \<open>
  The claim as stated fails when the parent is collapsed and \<open>setExpanded\<close> is called
  (and awaited) as it is by default, with \<open>ensureVisible\<close>: it expands the parent too, and
  \<open>setCollapsed\<close> does not undo that.  Here \<open>a\<close> and \<open>d\<close> are loaded and collapsed;
  before, the owner of the row of \<open>d\<close> is \<open>a\<close> with the array \<open>[d]\<close> and the root's
  array is \<open>[a]\<close>; after, \<open>a\<close> owns no array and the root's array is \<open>[a, d]\<close>.
\<close>

theorem expand_then_collapse_under_collapsed_parent:
  "returns (Root_new unix host_deep True None True ''/root'' 0 Map.empty)
     (\<lambda>s0. returns (ensureLoaded s0 1)
        (\<lambda>s1. returns (ensureLoaded s1 2)
           (\<lambda>s. \<not> isExpanded (objs s 2) \<and> children (objs s 2) = Some [3]
               \<and> climb s 1 = Some [1] \<and> flattenedBranch (objs s 1) = Some [2]
               \<and> flattenedBranch (objs s 0) = Some [1] \<and> branchSize (objs s 0) = 1
               \<and> returns (setExpanded_awaited s 2 True)
                     (\<lambda>sa. returns (setCollapsed sa 2)
                        (\<lambda>sb. flattenedBranch (objs sb 1) = None
                            \<and> flattenedBranch (objs sb 0) = Some [1, 2]
                            \<and> branchSize (objs sb 0) = 2)))))"
  by (simp add: eval_defs eval_steps)

section \<open>Validation of what the host lists\<close>






section \<open>A move whose destination is not a loaded directory\<close>

lemmas eval_watch =
  inotify_def dispatchWatchEvent_def handleWatchEvent_def transferItem_def
  findFileEntryInLoadedTree_def walkPathTillRelative_def unlinkItem_def unlinkItem_core_def
  mv_def FileEntry_mv_def Directory_mv_def insertItem_here_def find_master.simps
  visibleSize_def dispose_def dispose_steps.simps FileEntry_dispose_def
  queueChangeEvent_def flushEventQueue_def sortQueue_def unix_splitPath_def host_two_def

text \<open>
  C6.  The tree of \<open>/root\<close> holds \<open>a/\<close> (expanded, with \<open>x.txt\<close>) and \<open>b/\<close>
  (not loaded).  A notification that \<open>x.txt\<close> moved into a directory that passes through
  the unloaded \<open>b/\<close> is handled as the claim says: \<open>x.txt\<close> is unlinked from \<open>a\<close>.
  But when the destination directory does not exist in the loaded tree the lookup throws
  and nothing is unlinked, and when the destination directory is the unloaded \<open>b/\<close>
  itself the lookup answers it, the move is attempted and \<open>insertItem\<close> throws on the
  missing children.  (A move to \<open>/root/y.txt\<close> has the loaded root as destination and is
  a move, not a removal.)
\<close>

theorem move_to_unloaded_destination:
  "returns (Root_new unix host_two True None True ''/root'' 0 Map.empty)
     (\<lambda>s0. returns (setExpanded s0 1 True)
        (\<lambda>s. children (objs s 1) = Some [3] \<and> fileName (objs s 3) = Some ''x.txt''
            \<and> children (objs s 2) = None \<and> fileName (objs s 2) = Some ''b''
            \<and> returns (inotify s (Moved ''/root/a/x.txt'' ''/root/b/c/y.txt''))
                  (\<lambda>s'. children (objs s' 1) = Some [] \<and> disposed (objs s' 3)
                       \<and> flattenedBranch (objs s' 0) = Some [1, 2])
            \<and> findFileEntryInLoadedTree s ''/root/zzz'' = Inl PlainError
            \<and> inotify s (Moved ''/root/a/x.txt'' ''/root/zzz/y.txt'') = Some (Inl PlainError)
            \<and> findFileEntryInLoadedTree s ''/root/b'' = Inr (Entry 2)
            \<and> inotify s (Moved ''/root/a/x.txt'' ''/root/b/y.txt'') = Some (Inl TypeError)
            \<and> returns (inotify s (Moved ''/root/a/x.txt'' ''/root/y.txt''))
                  (\<lambda>s'. children (objs s' 1) = Some [] \<and> children (objs s' 0) = Some [1, 2, 3]
                       \<and> parent (objs s' 3) = Some 0 \<and> fileName (objs s' 3) = Some ''y.txt''
                       \<and> \<not> disposed (objs s' 3) \<and> flattenedBranch (objs s' 0) = Some [1, 2, 3])))"
  by (simp add: eval_defs eval_watch)


section \<open>The queue of generic changes\<close>

text \<open>What holds of the queue: it never holds a path twice, and a flush sorts it by depth.\<close>

lemma queueChangeEvent_distinct:
  "distinct (changeEventDispatchQueue s)
     \<Longrightarrow> distinct (changeEventDispatchQueue (queueChangeEvent s p))
         \<and> p \<in> set (changeEventDispatchQueue (queueChangeEvent s p))"
  by (auto simp: queueChangeEvent_def index_of_None_iff)

lemma queueChangeEvent_again:
  "p \<in> set (changeEventDispatchQueue s) \<Longrightarrow> queueChangeEvent s p = s"
  by (simp add: queueChangeEvent_def index_of_None_iff)

lemma set_insort_by: "set (insort_by c x xs) = insert x (set xs)"
  by (induction xs) auto

lemma sorted_insort_by_depth:
  "sorted_wrt (\<lambda>a b. f a \<le> f b) xs
     \<Longrightarrow> sorted_wrt (\<lambda>a b. (f a :: int) \<le> f b) (insort_by (\<lambda>a b. f a - f b) x xs)"
  by (induction xs) (auto simp: set_insort_by)

lemma sortQueue_sorted:
  "sorted_wrt (\<lambda>a b. pathDepth (pathfx_of s) a \<le> pathDepth (pathfx_of s) b) (sortQueue s q)"
  unfolding sortQueue_def sort_by_def
  by (induction q) (simp_all add: sorted_insort_by_depth)

lemma sortQueue_set: "set (sortQueue s q) = set q"
  unfolding sortQueue_def sort_by_def
  by (induction q) (simp_all add: set_insort_by)

text \<open>
  C7.  Both \<open>a/\<close> and \<open>b/\<close> are loaded; three generic changes are notified, for
  \<open>/root/a\<close>, \<open>/root/b\<close> and \<open>/root/a\<close> again.  The queue holds the two paths once
  each.  When the flush has run its series of callbacks to the end, the reload of \<open>a\<close> is
  still waiting for the host (its promise is set, its children are the old, disposed ones)
  although the callback of \<open>b\<close> has already run (the child of \<open>b\<close> is disposed, its
  reload waits as well): the flush waits for each callback, and no callback waits for the
  reload it starts.
\<close>

theorem flush_does_not_wait_for_reload:
  "returns (Root_new unix host_two True None True ''/root'' 0 Map.empty)
     (\<lambda>s0. returns (ensureLoaded s0 1)
        (\<lambda>s1. returns (ensureLoaded s1 2)
           (\<lambda>s2. returns (inotify s2 (Changed ''/root/a''))
              (\<lambda>s3. returns (inotify s3 (Changed ''/root/b''))
                 (\<lambda>s4. returns (inotify s4 (Changed ''/root/a''))
                    (\<lambda>s. changeEventDispatchQueue s = [''/root/a'', ''/root/b'']
                        \<and> children (objs s 1) = Some [3] \<and> children (objs s 2) = Some [4]
                        \<and> returns (flushEventQueue s)
                              (\<lambda>s'. changeEventDispatchQueue s' = []
                                   \<and> hardReloadPromise (objs s' 1) = Some ''/root/a''
                                   \<and> children (objs s' 1) = Some [3] \<and> disposed (objs s' 3)
                                   \<and> hardReloadPromise (objs s' 2) = Some ''/root/b''
                                   \<and> children (objs s' 2) = Some [4] \<and> disposed (objs s' 4)
                                   \<and> drop (length (events s)) (events s') =
                                        [WillProcessWatchEvent 1 (Changed ''/root/a''),
                                         WillDispose 3, DidDispose 3,
                                         DidProcessWatchEvent 1 (Changed ''/root/a''),
                                         WillProcessWatchEvent 2 (Changed ''/root/b''),
                                         WillDispose 4, DidDispose 4,
                                         DidProcessWatchEvent 2 (Changed ''/root/b'')])))))))"
  by (simp add: eval_defs eval_watch)

section \<open>Collapsing while an expansion is suspended\<close>

text \<open>
  C1.  The ownership invariant does not survive a \<open>setCollapsed\<close> that runs while a
  \<open>setExpanded\<close> of the same directory is suspended.  In the tree of \<open>/root\<close> the
  directory \<open>a\<close> is expanded and its child \<open>d\<close> (holding \<open>x.txt\<close>) is loaded and
  collapsed; the root's array is \<open>[a, d]\<close> and \<open>d\<close> owns \<open>[x.txt]\<close>.  A call of
  \<open>setExpanded\<close> on \<open>d\<close> sets the flag and is suspended at the await of its parent's
  call, before it has merged the array of \<open>d\<close> into the root's.  \<open>setCollapsed\<close> on
  \<open>d\<close> then finds the flag set and takes back rows that were never given: the array of
  \<open>d\<close> becomes empty and the root's \<open>branchSize\<close> drops to 1 under an array of two
  rows.  The suspended call, resumed, does nothing.  After a further, awaited
  \<open>setExpanded\<close> of \<open>d\<close> both \<open>a\<close> and \<open>d\<close> are expanded, \<open>x.txt\<close> is a child of
  \<open>d\<close> and so a visible node, and its id is in no array at all: the only array any
  object owns is the root's \<open>[a, d]\<close>.
\<close>

theorem collapse_while_expanding_loses_rows:
  "returns (Root_new unix host_deep True None True ''/root'' 0 Map.empty)
     (\<lambda>s0. returns (setExpanded_awaited s0 1 True)
        (\<lambda>s1. returns (ensureLoaded s1 2)
           (\<lambda>s. flattenedBranch (objs s 0) = Some [1, 2] \<and> branchSize (objs s 0) = 2
               \<and> children (objs s 2) = Some [3] \<and> flattenedBranch (objs s 2) = Some [3]
               \<and> returns (setExpanded_call s 2 True)
                    (\<lambda>c. snd c = [AwaitParent 2] \<and> isExpanded (objs (fst c) 2)
                        \<and> flattenedBranch (objs (fst c) 2) = Some [3]
                        \<and> returns (setCollapsed (fst c) 2)
                             (\<lambda>sb. returns (Directory_setExpanded_resume sb (snd c))
                                (\<lambda>c'. snd c' = [] \<and> \<not> isExpanded (objs (fst c') 2)
                                    \<and> flattenedBranch (objs (fst c') 2) = Some []
                                    \<and> flattenedBranch (objs (fst c') 0) = Some [1, 2]
                                    \<and> branchSize (objs (fst c') 0) = 1
                                    \<and> returns (setExpanded_awaited (fst c') 2 True)
                                         (\<lambda>sd. isExpanded (objs sd 1) \<and> isExpanded (objs sd 2)
                                             \<and> children (objs sd 1) = Some [2]
                                             \<and> children (objs sd 2) = Some [3]
                                             \<and> parent (objs sd 3) = Some 2
                                             \<and> flattenedBranch (objs sd 0) = Some [1, 2]
                                             \<and> (\<forall>i. flattenedBranch (objs sd i) = None
                                                    \<or> flattenedBranch (objs sd i) = Some [1, 2]))))))))"
  by (simp add: eval_defs eval_steps)


section \<open>Reloading a collapsed directory\<close>

text \<open>
  C2.  The size invariant does not survive the reload of a directory that is loaded and
  collapsed.  The root of \<open>/root\<close> lists the directories \<open>a\<close> and \<open>b\<close>, both collapsed,
  \<open>a\<close> loaded: the root's \<open>branchSize\<close> is 2 and its array is \<open>[a, b]\<close>.  A generic
  change notification for \<open>/root/a\<close> is queued and flushed, and the host answers the
  reload it starts.  The reload first calls \<open>shrinkBranch\<close> on \<open>a\<close>, which takes the
  \<open>branchSize\<close> of \<open>a\<close> from the root and the rows behind \<open>a\<close> out of the root's array,
  although \<open>a\<close> is collapsed and has none of its rows there.  Afterwards the root still
  has the two children \<open>a\<close> and \<open>b\<close>, both collapsed, so the visible sequence rooted at
  it has two entries; but its \<open>branchSize\<close> is 1 and its array is \<open>[a]\<close>.
\<close>

theorem reload_of_collapsed_directory_breaks_sizes:
  "returns (Root_new unix host_two True None True ''/root'' 0 Map.empty)
     (\<lambda>s0. returns (ensureLoaded s0 1)
        (\<lambda>s1. children (objs s1 0) = Some [1, 2] \<and> branchSize (objs s1 0) = 2
             \<and> flattenedBranch (objs s1 0) = Some [1, 2]
             \<and> returns (inotify s1 (Changed ''/root/a''))
                  (\<lambda>s2. returns (flushEventQueue s2)
                     (\<lambda>s3. returns (hardReload_finish s3 1)
                        (\<lambda>s. children (objs s 0) = Some [1, 2]
                            \<and> visibleSize s 1 = 0 \<and> visibleSize s 2 = 0
                            \<and> branchSize (objs s 0) = 1
                            \<and> flattenedBranch (objs s 0) = Some [1]
                            \<and> children (objs s 1) = Some [4]
                            \<and> flattenedBranch (objs s 1) = Some [4])))))"
  by (simp add: eval_defs eval_watch)

end
